theory Spec2Isabelle
  imports Main "HOL-Library.Word"
begin

section \<open>Data model (package skydb, as builder.go uses it)\<close>

text \<open>
  A Go \<^verbatim>\<open>string\<close> is a byte sequence: \<^typ>\<open>string\<close>. A \<^verbatim>\<open>float64\<close> is kept as
  its IEEE-754 bit pattern: the builder never computes with one, it binds it as an
  argument or hands it to a formatter.
\<close>

type_synonym float64 = "64 word"

text \<open>
  \<^verbatim>\<open>skydb.Operator\<close>: an integer enumeration starting at 1; \<open>NoOperator\<close> is the zero
  value of the type.
\<close>

datatype operator =
    NoOperator
  | And | Or | Not_op
  | Equal | GreaterThan | LessThan | GreaterThanOrEqual | LessThanOrEqual | NotEqual
  | Like | ILike | In_op
  | Functional

text \<open>
  Modelled from the spec: \<^verbatim>\<open>Operator.IsCompound\<close> and \<^verbatim>\<open>Operator.IsBinary\<close> of package
  skydb are not among the source files. The spec's data model has And, Or and Not holding
  child predicates, and the comparison and In operators holding two expressions.
\<close>

fun IsCompound :: "operator \<Rightarrow> bool" where
  "IsCompound And = True"
| "IsCompound Or = True"
| "IsCompound Not_op = True"
| "IsCompound _ = False"

fun IsBinary :: "operator \<Rightarrow> bool" where
  "IsBinary Equal = True"
| "IsBinary GreaterThan = True"
| "IsBinary LessThan = True"
| "IsBinary GreaterThanOrEqual = True"
| "IsBinary LessThanOrEqual = True"
| "IsBinary NotEqual = True"
| "IsBinary Like = True"
| "IsBinary ILike = True"
| "IsBinary In_op = True"
| "IsBinary _ = False"

datatype expressionType = Literal | KeyPath | Function

text \<open>\<^verbatim>\<open>skydb.Location\<close>: longitude and latitude, read by \<^verbatim>\<open>Lng()\<close> and \<^verbatim>\<open>Lat()\<close>.\<close>

datatype location = Location (Lng: float64) (Lat: float64)

text \<open>
  The implementations of \<^verbatim>\<open>skydb.Func\<close>. \<open>UserRelationFunc\<close> carries KeyPath,
  RelationName, RelationDirection and User, in this order; \<open>UserDiscoverFunc\<close> carries
  its e-mail addresses.
\<close>

datatype func =
    DistanceFunc (Field: string) (Loc: location)
  | CountFunc (OverallRecords: bool)
  | UserDataFunc (DataName: string)
  | UserRelationFunc (RelKeyPath: string) (RelationName: string)
      (RelationDirection: string) (User: string)
  | UserDiscoverFunc (Emails: "string list")

text \<open>
  A Go \<^verbatim>\<open>interface{}\<close> as the builder meets it: the dynamic types of an expression's
  \<^verbatim>\<open>Value\<close> and of a bind argument. \<open>VReference t k\<close> is a \<^verbatim>\<open>skydb.Reference\<close> whose
  record id has type \<open>t\<close> and key \<open>k\<close>; \<open>VArray\<close> is a \<^verbatim>\<open>[]interface{}\<close>.
\<close>

datatype iface =
    VNil
  | VBool bool
  | VInt int
  | VFloat float64
  | VString string
  | VReference string string
  | VFunc func
  | VArray "iface list"

datatype expression = Expression (Type: expressionType) (Val: iface)

text \<open>
  \<^verbatim>\<open>skydb.Predicate\<close>: an operator and its children, a \<^verbatim>\<open>[]interface{}\<close> whose elements
  are predicates or expressions.
\<close>

datatype predicate = Predicate (Operator: operator) (Children: "child list")
  and child = PredicateChild predicate | ExpressionChild expression

text \<open>
  Modelled from the spec: \<^verbatim>\<open>Predicate.IsEmpty\<close> of package skydb is not among the source
  files. A predicate is empty when it has no operator or no children.
\<close>

definition IsEmpty :: "predicate \<Rightarrow> bool" where
  "IsEmpty p \<longleftrightarrow> Operator p = NoOperator \<or> Children p = []"

text \<open>
  Modelled from the spec: \<^verbatim>\<open>UserDiscoverFunc.ArgsByName\<close> of package skydb is not among
  the source files. Only the name \<open>email\<close> is recognised; it yields the e-mail addresses as
  a list of values, and any other name is a contract violation (\<open>None\<close>).
\<close>

definition ArgsByName :: "func \<Rightarrow> string \<Rightarrow> iface list option" where
  "ArgsByName fn name =
     (case fn of
        UserDiscoverFunc emails \<Rightarrow>
          if name = ''email'' then Some (map VString emails) else None
      | _ \<Rightarrow> None)"

datatype sortOrder = Asc | Desc | UnknownOrder

text \<open>\<^verbatim>\<open>skydb.Sort\<close>: an unset \<^verbatim>\<open>Func\<close> is the nil interface, \<open>None\<close>.\<close>

record sort =
  SortKeyPath :: string
  SortFunc :: "func option"
  Order :: sortOrder

record userInfo =
  ID :: string
  Roles :: "string list"

datatype aclLevel = ReadLevel | WriteLevel

datatype dataType =
    TypeString | TypeNumber | TypeDateTime | TypeBoolean | TypeJSON | TypeReference
  | TypeLocation | TypeAsset | TypeACL | TypeInteger | TypeSequence

record fieldType =
  FieldDataType :: dataType
  FieldExpression :: expression

section \<open>Results\<close>

text \<open>
  The errors the builder returns through its \<^verbatim>\<open>error\<close> result, one constructor per
  message:
  \<^item> \<open>CompoundOperatorNotSupported\<close>: "Compound operator `%v` is not supported."
  \<^item> \<open>ComparisonOperatorNotSupported\<close>: "Comparison operator `%v` is not supported."
  \<^item> \<open>UserDiscoverOnlyOnUserRecord\<close>: "user discover predicate can only be used on user record"
  \<^item> \<open>InvalidSort\<close>: "invalid Sort: specify either KeyPath or Func"
  \<^item> \<open>UnrecognizedFunc\<close>: "got unrecgonized skydb.Func = %T"
  \<^item> \<open>UnknownSortOrder\<close>: "unknown sort order = %v"
\<close>

datatype error =
    CompoundOperatorNotSupported operator
  | ComparisonOperatorNotSupported operator
  | UserDiscoverOnlyOnUserRecord
  | InvalidSort
  | UnrecognizedFunc func
  | UnknownSortOrder sortOrder

text \<open>
  A call either panics (an explicit \<^verbatim>\<open>panic\<close>, a failed type assertion, an index out of
  range) or returns. What it returns keeps Go's shape: a pair or triple whose last
  component is the \<^verbatim>\<open>error\<close>, \<open>None\<close> for \<^verbatim>\<open>nil\<close>.
\<close>

datatype 'a outcome = Panics string | Returns 'a

section \<open>Identifier quoting\<close>

text \<open>
  \<^verbatim>\<open>pq.QuoteIdentifier\<close> of the driver library lib/pq: the name is cut at its first NUL
  byte, every double quote is doubled, and the result is put in double quotes.
\<close>

fun doubleQuotes :: "string \<Rightarrow> string" where
  "doubleQuotes [] = []"
| "doubleQuotes (c # cs) =
     (if c = CHR 0x22 then CHR 0x22 # CHR 0x22 # doubleQuotes cs else c # doubleQuotes cs)"

definition QuoteIdentifier :: "string \<Rightarrow> string" where
  "QuoteIdentifier name =
     CHR 0x22 # doubleQuotes (takeWhile (\<lambda>c. c \<noteq> CHR 0x00) name) @ [CHR 0x22]"

definition fullQuoteIdentifier :: "string \<Rightarrow> string \<Rightarrow> string" where
  "fullQuoteIdentifier aliasName columnName =
     QuoteIdentifier aliasName @ ''.'' @ QuoteIdentifier columnName"

text \<open>\<^verbatim>\<open>fmt.Sprintf("%d", n)\<close> for an index \<open>n\<close>, which is never negative.\<close>

definition digitChar :: "nat \<Rightarrow> char" where
  "digitChar d = ''0123456789'' ! d"

fun formatNat :: "nat \<Rightarrow> string" where
  "formatNat n = (if n < 10 then [digitChar n] else formatNat (n div 10) @ [digitChar (n mod 10)])"

declare formatNat.simps [simp del]

section \<open>The compiler session\<close>

text \<open>
  What the builder reads of its \<^verbatim>\<open>*database\<close>: \<^verbatim>\<open>db.ID()\<close> and
  \<^verbatim>\<open>db.UserRecordType()\<close>. Both are defined outside the source files, so they are
  fields here.
\<close>

record database =
  DatabaseID :: string
  UserRecordType :: string

record joinedTable =
  secondaryTable :: string
  primaryColumn :: string
  secondaryColumn :: string

definition equal_jt :: "joinedTable \<Rightarrow> joinedTable \<Rightarrow> bool" where
  "equal_jt a b \<longleftrightarrow>
     secondaryTable a = secondaryTable b \<and> primaryColumn a = primaryColumn b
       \<and> secondaryColumn a = secondaryColumn b"

text \<open>
  \<^verbatim>\<open>predicateSqlizerFactory\<close>. The Go map \<^verbatim>\<open>extraColumns\<close> is a partial function; the nil
  map and the empty map are both \<open>Map.empty\<close>.
\<close>

record predicateSqlizerFactory =
  db :: database
  primaryTable :: string
  joinedTables :: "joinedTable list"
  extraColumns :: "string \<rightharpoonup> fieldType"

definition newPredicateSqlizerFactory :: "database \<Rightarrow> string \<Rightarrow> predicateSqlizerFactory" where
  "newPredicateSqlizerFactory d t =
     \<lparr>db = d, primaryTable = t, joinedTables = [], extraColumns = Map.empty\<rparr>"

definition aliasName :: "string \<Rightarrow> nat \<Rightarrow> string" where
  "aliasName secTable indexInJoinedTables =
     (if secTable = ''_user'' then ''_user'' else ''_t'' @ formatNat indexInJoinedTables)"

text \<open>
  The loop of \<^verbatim>\<open>createLeftJoin\<close>: the index of the first entry of the list equal to the
  new one, counting from \<open>i\<close>.
\<close>

fun findJoin :: "joinedTable \<Rightarrow> joinedTable list \<Rightarrow> nat \<Rightarrow> nat option" where
  "findJoin new [] i = None"
| "findJoin new (a # as) i = (if equal_jt a new then Some i else findJoin new as (Suc i))"

definition createLeftJoin ::
  "predicateSqlizerFactory \<Rightarrow> string \<Rightarrow> string \<Rightarrow> string \<Rightarrow> string \<times> predicateSqlizerFactory"
where
  "createLeftJoin f secTable primColumn secColumn =
     (let newAlias = \<lparr>secondaryTable = secTable, primaryColumn = primColumn,
                       secondaryColumn = secColumn\<rparr>
      in case findJoin newAlias (joinedTables f) 0 of
           Some i \<Rightarrow> (aliasName secTable i, f)
         | None \<Rightarrow>
             (let f' = f\<lparr>joinedTables := joinedTables f @ [newAlias]\<rparr>
              in (aliasName secTable (length (joinedTables f') - 1), f')))"

definition addExtraColumn ::
  "predicateSqlizerFactory \<Rightarrow> string \<Rightarrow> dataType \<Rightarrow> expression \<Rightarrow> predicateSqlizerFactory"
where
  "addExtraColumn f key ft expr =
     f\<lparr>extraColumns := (extraColumns f)(key \<mapsto> \<lparr>FieldDataType = ft, FieldExpression = expr\<rparr>)\<rparr>"

section \<open>Expressions\<close>

text \<open>
  \<^verbatim>\<open>sq.Placeholders\<close> of the statement-builder library squirrel: \<open>count\<close> question marks
  separated by commas, the empty string for a count below one.
\<close>

definition Placeholders :: "nat \<Rightarrow> string" where
  "Placeholders count = (if count < 1 then [] else tl (concat (replicate count '',?'')))"

fun literalToSQLValue :: "iface \<Rightarrow> iface" where
  "literalToSQLValue (VReference t k) = VString k"
| "literalToSQLValue v = v"

fun literalToSQLOperand :: "iface \<Rightarrow> string \<times> iface list" where
  "literalToSQLOperand (VArray literalValue) =
     (if length literalValue > 0
      then (''('' @ Placeholders (length literalValue) @ '')'', map literalToSQLValue literalValue)
      else (''(NULL)'', []))"
| "literalToSQLOperand literal = (Placeholders 1, [literalToSQLValue literal])"

fun funcToSQLOperand :: "string \<Rightarrow> func \<Rightarrow> (string \<times> iface list) outcome" where
  "funcToSQLOperand alias (DistanceFunc field loc) =
     Returns (''ST_Distance_Sphere('' @ fullQuoteIdentifier alias field @ '', ST_MakePoint(?, ?))'',
              [VFloat (Lng loc), VFloat (Lat loc)])"
| "funcToSQLOperand alias (CountFunc overall) =
     Returns (if overall then ''COUNT(*) OVER()'' else ''COUNT(*)'', [])"
| "funcToSQLOperand alias (UserDataFunc name) = Returns (''_user.'' @ name, [])"
| "funcToSQLOperand alias fn = Panics ''got unrecgonized skydb.Func''"

text \<open>What every \<^verbatim>\<open>ToSql\<close> returns: the SQL text, the bind arguments, the error.\<close>

type_synonym sqlResult = "(string \<times> iface list \<times> error option) outcome"

text \<open>\<^verbatim>\<open>expressionSqlizer.ToSql\<close>; the sqlizer is an alias and an expression.\<close>

fun expressionSqlizer_ToSql :: "string \<Rightarrow> expression \<Rightarrow> sqlResult" where
  "expressionSqlizer_ToSql alias (Expression KeyPath v) =
     (case v of
        VString name \<Rightarrow> Returns (fullQuoteIdentifier alias name, [], None)
      | _ \<Rightarrow> Panics ''interface conversion: interface is not string'')"
| "expressionSqlizer_ToSql alias (Expression Function v) =
     (case v of
        VFunc fn \<Rightarrow>
          (case funcToSQLOperand alias fn of
             Panics m \<Rightarrow> Panics m
           | Returns (sql, args) \<Rightarrow> Returns (sql, args, None))
      | _ \<Rightarrow> Panics ''interface conversion: interface is not skydb.Func'')"
| "expressionSqlizer_ToSql alias (Expression Literal v) =
     (case literalToSQLOperand v of (sql, args) \<Rightarrow> Returns (sql, args, None))"

section \<open>Comparison predicates\<close>

text \<open>
  \<^verbatim>\<open>p.Children[i].(skydb.Expression)\<close>: a panic when the index is out of range or the child
  is not an expression.
\<close>

definition childExpression :: "predicate \<Rightarrow> nat \<Rightarrow> expression outcome" where
  "childExpression p i =
     (if i < length (Children p)
      then (case Children p ! i of
              ExpressionChild e \<Rightarrow> Returns e
            | PredicateChild q \<Rightarrow> Panics ''interface conversion: interface is not skydb.Expression'')
      else Panics ''index out of range'')"

text \<open>
  \<^verbatim>\<open>containsComparisonPredicateSqlizer.ToSql\<close>. Both children are asserted to be
  expressions before anything is compiled; with a literal on the left and a key path on
  the right the key path is compiled first. An operand that returns an error ends the
  call with the empty text and no arguments.
\<close>

definition containsComparisonPredicateSqlizer_ToSql :: "string \<Rightarrow> predicate \<Rightarrow> sqlResult" where
  "containsComparisonPredicateSqlizer_ToSql alias p =
     (case childExpression p 0 of
        Panics m \<Rightarrow> Panics m
      | Returns lhs \<Rightarrow>
     (case childExpression p 1 of
        Panics m \<Rightarrow> Panics m
      | Returns rhs \<Rightarrow>
          if Type lhs = Literal \<and> Type rhs = KeyPath then
            (case expressionSqlizer_ToSql alias rhs of
               Panics m \<Rightarrow> Panics m
             | Returns (sqlOperand, opArgs, err) \<Rightarrow>
                 if err \<noteq> None then Returns ([], [], err)
                 else
                   (case expressionSqlizer_ToSql alias lhs of
                      Panics m \<Rightarrow> Panics m
                    | Returns (sqlOperand', opArgs', err') \<Rightarrow>
                        if err' \<noteq> None then Returns ([], [], err')
                        else Returns (''jsonb_exists('' @ sqlOperand @ '', '' @ sqlOperand' @ '')'',
                                      opArgs @ opArgs', err')))
          else if Type lhs = KeyPath \<and> Type rhs = Literal then
            (case expressionSqlizer_ToSql alias lhs of
               Panics m \<Rightarrow> Panics m
             | Returns (sqlOperand, opArgs, err) \<Rightarrow>
                 if err \<noteq> None then Returns ([], [], err)
                 else
                   (case expressionSqlizer_ToSql alias rhs of
                      Panics m \<Rightarrow> Panics m
                    | Returns (sqlOperand', opArgs', err') \<Rightarrow>
                        if err' \<noteq> None then Returns ([], [], err')
                        else Returns (sqlOperand @ '' IN '' @ sqlOperand', opArgs @ opArgs', err')))
          else Panics ''malformed query''))"

text \<open>The operator switch of \<^verbatim>\<open>comparisonPredicateSqlizer.ToSql\<close>; \<open>None\<close> is its default case.\<close>

fun comparisonOperatorSQL :: "operator \<Rightarrow> string option" where
  "comparisonOperatorSQL Equal = Some ''=''"
| "comparisonOperatorSQL GreaterThan = Some ''>''"
| "comparisonOperatorSQL LessThan = Some ''<''"
| "comparisonOperatorSQL GreaterThanOrEqual = Some ''>=''"
| "comparisonOperatorSQL LessThanOrEqual = Some ''<=''"
| "comparisonOperatorSQL NotEqual = Some ''<>''"
| "comparisonOperatorSQL Like = Some '' LIKE ''"
| "comparisonOperatorSQL ILike = Some '' ILIKE ''"
| "comparisonOperatorSQL _ = None"

definition comparisonPredicateSqlizer_ToSql :: "string \<Rightarrow> predicate \<Rightarrow> sqlResult" where
  "comparisonPredicateSqlizer_ToSql alias p =
     (if IsBinary (Operator p) then
        (case childExpression p 0 of
           Panics m \<Rightarrow> Panics m
         | Returns lhs \<Rightarrow>
        (case childExpression p 1 of
           Panics m \<Rightarrow> Panics m
         | Returns rhs \<Rightarrow>
        (case expressionSqlizer_ToSql alias lhs of
           Panics m \<Rightarrow> Panics m
         | Returns (sqlOperand, opArgs, err) \<Rightarrow>
             if err \<noteq> None then Returns ([], [], err)
             else
               (case comparisonOperatorSQL (Operator p) of
                  None \<Rightarrow> Returns ([], opArgs, Some (ComparisonOperatorNotSupported (Operator p)))
                | Some opSQL \<Rightarrow>
                    (case expressionSqlizer_ToSql alias rhs of
                       Panics m \<Rightarrow> Panics m
                     | Returns (sqlOperand', opArgs', err') \<Rightarrow>
                         if err' \<noteq> None then Returns ([], [], err')
                         else Returns (sqlOperand @ opSQL @ sqlOperand', opArgs @ opArgs', None))))))
      else Returns ([], [], Some (ComparisonOperatorNotSupported (Operator p))))"

text \<open>\<^verbatim>\<open>userRelationPredicateSqlizer.ToSql\<close>.\<close>

definition userRelationPredicateSqlizer_ToSql :: "string \<Rightarrow> string \<Rightarrow> string \<Rightarrow> sqlResult" where
  "userRelationPredicateSqlizer_ToSql outwardAlias inwardAlias user =
     (if outwardAlias \<noteq> [] \<and> inwardAlias \<noteq> [] then
        Returns (fullQuoteIdentifier outwardAlias ''left_id'' @ '' = ''
                   @ fullQuoteIdentifier inwardAlias ''right_id'' @ '' AND ''
                   @ fullQuoteIdentifier outwardAlias ''left_id'' @ '' = ?'',
                 [VString user], None)
      else if outwardAlias \<noteq> [] then
        Returns (fullQuoteIdentifier outwardAlias ''left_id'' @ '' = ?'', [VString user], None)
      else if inwardAlias \<noteq> [] then
        Returns (fullQuoteIdentifier inwardAlias ''right_id'' @ '' = ?'', [VString user], None)
      else Panics ''unexpected value in sqlizer'')"

section \<open>Sqlizers\<close>

text \<open>
  The implementations of \<^verbatim>\<open>sq.Sqlizer\<close> the predicate factory builds: squirrel's
  \<^verbatim>\<open>sq.And\<close> and \<^verbatim>\<open>sq.Or\<close> (lists of sqlizers), and the builder's own.
\<close>

datatype sqlizer =
    And_sq "sqlizer list"
  | Or_sq "sqlizer list"
  | NotSqlizer sqlizer
  | userRelationPredicateSqlizer string string string
  | containsComparisonPredicateSqlizer string predicate
  | comparisonPredicateSqlizer string predicate

text \<open>\<^verbatim>\<open>strings.Join\<close>.\<close>

fun joinStrings :: "string list \<Rightarrow> string \<Rightarrow> string" where
  "joinStrings [] sep = []"
| "joinStrings [x] sep = x"
| "joinStrings (x # y # ys) sep = x @ sep @ joinStrings (y # ys) sep"

text \<open>
  Modelled from the spec: \<^verbatim>\<open>ToSql\<close> of \<^verbatim>\<open>sq.And\<close> and \<^verbatim>\<open>sq.Or\<close> belongs to the library
  squirrel and is not among the source files. The children are compiled in order, their
  fragments joined with \<open>AND\<close> or \<open>OR\<close>, their arguments concatenated in order. As the
  library does, \<open>joinParts\<close> stops at the first child error and leaves out a child
  whose fragment is empty together with its arguments, and the joined text is put in
  parentheses.

  \<open>ToSql (NotSqlizer s)\<close> is \<^verbatim>\<open>NotSqlizer.ToSql\<close> of builder.go: the text is wrapped when
  the error of the child is not nil.
\<close>

fun ToSql :: "sqlizer \<Rightarrow> sqlResult"
  and joinParts :: "sqlizer list \<Rightarrow> (string list \<times> iface list \<times> error option) outcome"
where
  "ToSql (And_sq parts) =
     (case joinParts parts of
        Panics m \<Rightarrow> Panics m
      | Returns (sqlParts, args, err) \<Rightarrow>
          if err \<noteq> None then Returns ([], [], err)
          else Returns (if length sqlParts > 0 then ''('' @ joinStrings sqlParts '' AND '' @ '')'' else [],
                        args, None))"
| "ToSql (Or_sq parts) =
     (case joinParts parts of
        Panics m \<Rightarrow> Panics m
      | Returns (sqlParts, args, err) \<Rightarrow>
          if err \<noteq> None then Returns ([], [], err)
          else Returns (if length sqlParts > 0 then ''('' @ joinStrings sqlParts '' OR '' @ '')'' else [],
                        args, None))"
| "ToSql (NotSqlizer s) =
     (case ToSql s of
        Panics m \<Rightarrow> Panics m
      | Returns (sql, args, err) \<Rightarrow>
          Returns (if err \<noteq> None then ''NOT ('' @ sql @ '')'' else sql, args, err))"
| "ToSql (userRelationPredicateSqlizer outwardAlias inwardAlias user) =
     userRelationPredicateSqlizer_ToSql outwardAlias inwardAlias user"
| "ToSql (containsComparisonPredicateSqlizer alias p) =
     containsComparisonPredicateSqlizer_ToSql alias p"
| "ToSql (comparisonPredicateSqlizer alias p) = comparisonPredicateSqlizer_ToSql alias p"
| "joinParts [] = Returns ([], [], None)"
| "joinParts (s # ss) =
     (case ToSql s of
        Panics m \<Rightarrow> Panics m
      | Returns (partSql, partArgs, err) \<Rightarrow>
          if err \<noteq> None then Returns ([], [], err)
          else
            (case joinParts ss of
               Panics m \<Rightarrow> Panics m
             | Returns (sqlParts, args, err') \<Rightarrow>
                 if err' \<noteq> None then Returns ([], [], err')
                 else if partSql \<noteq> [] then Returns (partSql # sqlParts, partArgs @ args, None)
                 else Returns (sqlParts, args, None)))"

section \<open>The predicate factory\<close>

text \<open>
  Each constructor of the factory returns Go's pair \<^verbatim>\<open>(sq.Sqlizer, error)\<close>, which is
  either a sqlizer with a nil error (\<open>Inr\<close>) or nil with an error (\<open>Inl\<close>), and the
  factory as the call left it.
\<close>

type_synonym factoryResult = "((error + sqlizer) \<times> predicateSqlizerFactory) outcome"

text \<open>
  \<^verbatim>\<open>newUserRelationFunctionalPredicateSqlizer\<close>, applied to the fields of its
  \<^verbatim>\<open>skydb.UserRelationFunc\<close>. An alias that is not requested stays the empty string.
\<close>

definition newUserRelationFunctionalPredicateSqlizer ::
  "predicateSqlizerFactory \<Rightarrow> string \<Rightarrow> string \<Rightarrow> string \<Rightarrow> string \<Rightarrow> factoryResult"
where
  "newUserRelationFunctionalPredicateSqlizer f keyPath relationName relationDirection user =
     (let table = relationName;
          direction = (if relationDirection = [] then ''outward'' else relationDirection);
          primColumn = (if keyPath = ''_owner'' \<or> keyPath = [] then ''_owner_id'' else keyPath);
          (outwardAlias, f1) =
            (if direction = ''outward'' \<or> direction = ''mutual''
             then createLeftJoin f table primColumn ''right_id'' else ([], f));
          (inwardAlias, f2) =
            (if direction = ''inward'' \<or> direction = ''mutual''
             then createLeftJoin f1 table primColumn ''left_id'' else ([], f1))
      in Returns (Inr (userRelationPredicateSqlizer outwardAlias inwardAlias user), f2))"

text \<open>
  \<^verbatim>\<open>newUserDiscoverFunctionalPredicateSqlizer\<close>. Its parameter has the Go type
  \<^verbatim>\<open>skydb.UserDiscoverFunc\<close>, for which \<open>ArgsByName fn ''email''\<close> is never \<open>None\<close>.
\<close>

definition newUserDiscoverFunctionalPredicateSqlizer ::
  "predicateSqlizerFactory \<Rightarrow> func \<Rightarrow> factoryResult"
where
  "newUserDiscoverFunctionalPredicateSqlizer f fn =
     (if UserRecordType (db f) \<noteq> primaryTable f
      then Returns (Inl UserDiscoverOnlyOnUserRecord, f)
      else
        (case createLeftJoin f ''_user'' ''_id'' ''id'' of (alias, f1) \<Rightarrow>
         (case ArgsByName fn ''email'' of
            None \<Rightarrow> Panics ''not a skydb.UserDiscoverFunc''
          | Some emailArgs \<Rightarrow>
              (let sqlizer = containsComparisonPredicateSqlizer alias
                     (Predicate In_op
                        [ExpressionChild (Expression KeyPath (VString ''email'')),
                         ExpressionChild (Expression Literal (VArray emailArgs))]);
                   f2 = addExtraColumn f1 ''_transient__email'' TypeString
                          (Expression Function (VFunc (UserDataFunc ''email'')));
                   f3 = addExtraColumn f2 ''_transient__username'' TypeString
                          (Expression Function (VFunc (UserDataFunc ''username'')))
               in Returns (Inr sqlizer, f3)))))"

definition newFunctionalPredicateSqlizer ::
  "predicateSqlizerFactory \<Rightarrow> predicate \<Rightarrow> factoryResult"
where
  "newFunctionalPredicateSqlizer f p =
     (case childExpression p 0 of
        Panics m \<Rightarrow> Panics m
      | Returns expr \<Rightarrow>
          if Type expr \<noteq> Function then Panics ''unexpected expression in functional predicate''
          else
            (case Val expr of
               VFunc (UserRelationFunc keyPath relationName relationDirection user) \<Rightarrow>
                 newUserRelationFunctionalPredicateSqlizer f keyPath relationName relationDirection user
             | VFunc (UserDiscoverFunc emails) \<Rightarrow>
                 newUserDiscoverFunctionalPredicateSqlizer f (UserDiscoverFunc emails)
             | _ \<Rightarrow> Panics ''the specified function cannot be used as a functional predicate''))"

text \<open>
  \<^verbatim>\<open>newPredicateSqlizer\<close> and \<^verbatim>\<open>newCompoundPredicateSqlizer\<close>. \<open>newChildSqlizers\<close> is the
  loop over the children of an And or an Or: each child is asserted to be a predicate
  and compiled by the factory the earlier children left; the first error ends the loop.
\<close>

fun newPredicateSqlizer :: "predicateSqlizerFactory \<Rightarrow> predicate \<Rightarrow> factoryResult"
  and newCompoundPredicateSqlizer :: "predicateSqlizerFactory \<Rightarrow> predicate \<Rightarrow> factoryResult"
  and newChildSqlizers ::
    "predicateSqlizerFactory \<Rightarrow> child list \<Rightarrow> ((error + sqlizer list) \<times> predicateSqlizerFactory) outcome"
where
  "newPredicateSqlizer f (Predicate op cs) =
     (if IsEmpty (Predicate op cs) then Panics ''no sqlizer can be created from an empty predicate''
      else if op = Functional then newFunctionalPredicateSqlizer f (Predicate op cs)
      else if IsCompound op then newCompoundPredicateSqlizer f (Predicate op cs)
      else if op = In_op then Returns (Inr (containsComparisonPredicateSqlizer (primaryTable f) (Predicate op cs)), f)
      else Returns (Inr (comparisonPredicateSqlizer (primaryTable f) (Predicate op cs)), f))"
| "newCompoundPredicateSqlizer f (Predicate op cs) =
     (case op of
        And \<Rightarrow>
          (case newChildSqlizers f cs of
             Panics m \<Rightarrow> Panics m
           | Returns (Inl err, f') \<Rightarrow> Returns (Inl err, f')
           | Returns (Inr sqlizers, f') \<Rightarrow> Returns (Inr (And_sq sqlizers), f'))
      | Or \<Rightarrow>
          (case newChildSqlizers f cs of
             Panics m \<Rightarrow> Panics m
           | Returns (Inl err, f') \<Rightarrow> Returns (Inl err, f')
           | Returns (Inr sqlizers, f') \<Rightarrow> Returns (Inr (Or_sq sqlizers), f'))
      | Not_op \<Rightarrow>
          (case cs of
             [] \<Rightarrow> Panics ''index out of range''
           | ExpressionChild e # rest \<Rightarrow> Panics ''interface conversion: interface is not skydb.Predicate''
           | PredicateChild pred # rest \<Rightarrow>
               (case newPredicateSqlizer f pred of
                  Panics m \<Rightarrow> Panics m
                | Returns (Inl err, f') \<Rightarrow> Returns (Inl err, f')
                | Returns (Inr sqlizer, f') \<Rightarrow> Returns (Inr (NotSqlizer sqlizer), f')))
      | _ \<Rightarrow> Returns (Inl (CompoundOperatorNotSupported op), f))"
| "newChildSqlizers f [] = Returns (Inr [], f)"
| "newChildSqlizers f (ExpressionChild e # rest) =
     Panics ''interface conversion: interface is not skydb.Predicate''"
| "newChildSqlizers f (PredicateChild child # rest) =
     (case newPredicateSqlizer f child of
        Panics m \<Rightarrow> Panics m
      | Returns (Inl err, f') \<Rightarrow> Returns (Inl err, f')
      | Returns (Inr sqlizer, f') \<Rightarrow>
          (case newChildSqlizers f' rest of
             Panics m \<Rightarrow> Panics m
           | Returns (Inl err, f'') \<Rightarrow> Returns (Inl err, f'')
           | Returns (Inr sqlizers, f'') \<Rightarrow> Returns (Inr (sqlizer # sqlizers), f'')))"

section \<open>The access-control predicate\<close>

text \<open>
  \<^verbatim>\<open>json.Marshal\<close> of a Go string, from the standard library (with its default HTML
  escaping). \<open>utf8Size\<close> is the width \<^verbatim>\<open>utf8.DecodeRuneInString\<close> reports for the
  encoding a non-ASCII byte starts; an ill-formed encoding has width 1.
\<close>

definition hexChar :: "nat \<Rightarrow> char" where
  "hexChar d = ''0123456789abcdef'' ! d"

definition isCont :: "nat \<Rightarrow> bool" where
  "isCont b \<longleftrightarrow> 0x80 \<le> b \<and> b \<le> 0xBF"

definition utf8Size :: "nat list \<Rightarrow> nat" where
  "utf8Size bytes =
     (case bytes of
        [] \<Rightarrow> 1
      | b0 # bs \<Rightarrow>
          if 0xC2 \<le> b0 \<and> b0 \<le> 0xDF then
            (case bs of b1 # _ \<Rightarrow> if isCont b1 then 2 else 1 | _ \<Rightarrow> 1)
          else if 0xE0 \<le> b0 \<and> b0 \<le> 0xEF then
            (case bs of
               b1 # b2 # _ \<Rightarrow>
                 if (if b0 = 0xE0 then 0xA0 else 0x80) \<le> b1
                    \<and> b1 \<le> (if b0 = 0xED then 0x9F else 0xBF) \<and> isCont b2
                 then 3 else 1
             | _ \<Rightarrow> 1)
          else if 0xF0 \<le> b0 \<and> b0 \<le> 0xF4 then
            (case bs of
               b1 # b2 # b3 # _ \<Rightarrow>
                 if (if b0 = 0xF0 then 0x90 else 0x80) \<le> b1
                    \<and> b1 \<le> (if b0 = 0xF4 then 0x8F else 0xBF) \<and> isCont b2 \<and> isCont b3
                 then 4 else 1
             | _ \<Rightarrow> 1)
          else 1)"

text \<open>
  One ASCII byte: the double quote and the backslash get a backslash; newline, carriage
  return and tab their short forms; the other control characters and \<open><\<close>, \<open>>\<close>, \<open>&\<close>
  the form \<open>\u00XX\<close>; every other byte, the single quote among them, is copied.
\<close>

definition jsonEscapeASCII :: "char \<Rightarrow> string" where
  "jsonEscapeASCII c =
     (let b = (of_char c :: nat) in
      if c = CHR 0x22 \<or> c = CHR 0x5C then [CHR 0x5C, c]
      else if c = CHR 0x0A then [CHR 0x5C, CHR ''n'']
      else if c = CHR 0x0D then [CHR 0x5C, CHR ''r'']
      else if c = CHR 0x09 then [CHR 0x5C, CHR ''t'']
      else if b < 0x20 \<or> c = CHR ''<'' \<or> c = CHR ''>'' \<or> c = CHR ''&''
      then [CHR 0x5C, CHR ''u'', CHR ''0'', CHR ''0'', hexChar (b div 16), hexChar (b mod 16)]
      else [c])"

text \<open>
  The body of the string: an ill-formed byte becomes the escape of U+FFFD, the line
  and paragraph separators U+2028 and U+2029 (bytes E2 80 A8 and E2 80 A9) are escaped,
  every other well-formed encoding is copied.
\<close>

fun jsonStringBody :: "string \<Rightarrow> string" where
  "jsonStringBody [] = []"
| "jsonStringBody (c # cs) =
     (if (of_char c :: nat) < 0x80 then jsonEscapeASCII c @ jsonStringBody cs
      else
        (let n = utf8Size (map of_char (c # cs)) in
         if n = 1 then [CHR 0x5C, CHR ''u'', CHR ''f'', CHR ''f'', CHR ''f'', CHR ''d''] @ jsonStringBody cs
         else if take 3 (c # cs) = [CHR 0xE2, CHR 0x80, CHR 0xA8]
           then [CHR 0x5C, CHR ''u'', CHR ''2'', CHR ''0'', CHR ''2'', CHR ''8''] @ jsonStringBody (drop 2 cs)
         else if take 3 (c # cs) = [CHR 0xE2, CHR 0x80, CHR 0xA9]
           then [CHR 0x5C, CHR ''u'', CHR ''2'', CHR ''0'', CHR ''2'', CHR ''9''] @ jsonStringBody (drop 2 cs)
         else take n (c # cs) @ jsonStringBody (drop (n - 1) cs)))"

text \<open>The encoder never fails on a string: the error is always nil.\<close>

definition jsonMarshal :: "string \<Rightarrow> string \<times> error option" where
  "jsonMarshal s = (CHR 0x22 # jsonStringBody s @ [CHR 0x22], None)"

record accessPredicateSqlizer =
  databaseID :: string
  user :: userInfo
  level :: aclLevel

definition newAccessControlSqlizer ::
  "predicateSqlizerFactory \<Rightarrow> userInfo \<Rightarrow> aclLevel \<Rightarrow> accessPredicateSqlizer \<times> error option"
where
  "newAccessControlSqlizer f u aclLevel =
     (\<lparr>databaseID = DatabaseID (db f), user = u, level = aclLevel\<rparr>, None)"

text \<open>
  The loop over the roles of \<^verbatim>\<open>accessPredicateSqlizer.ToSql\<close>: what it writes to the
  buffer. A failed serialisation of a role panics.
\<close>

fun rolesSQL :: "string list \<Rightarrow> string outcome" where
  "rolesSQL [] = Returns []"
| "rolesSQL (role # roles) =
     (case jsonMarshal role of (escapedRole, err) \<Rightarrow>
        if err \<noteq> None then Panics ''unexpected serialze error on role''
        else
          (case rolesSQL roles of
             Panics m \<Rightarrow> Panics m
           | Returns rest \<Rightarrow> Returns (''_access @> '[{\"role\":'' @ escapedRole @ ''}]' OR '' @ rest)))"

text \<open>
  \<^verbatim>\<open>accessPredicateSqlizer.ToSql\<close>. The first test assigns the empty string to \<open>sql\<close>,
  which already holds it, and goes on. The error of serialising the user id is
  discarded; the test that follows it reads the result \<open>err\<close> of the method, still nil.
\<close>

definition accessPredicateSqlizer_ToSql :: "accessPredicateSqlizer \<Rightarrow> sqlResult" where
  "accessPredicateSqlizer_ToSql p =
     (let sql = (if databaseID p = [] then [] else []);
          err = (None :: error option)
      in if ID (user p) \<noteq> [] then
           (case rolesSQL (Roles (user p)) of
              Panics m \<Rightarrow> Panics m
            | Returns b \<Rightarrow>
                (case jsonMarshal (ID (user p)) of (escapedID, discarded) \<Rightarrow>
                   if err \<noteq> None then Panics ''unexpected serialze error on user_id''
                   else Returns (''('' @ b @ ''_access @> '[{\"user_id\":'' @ escapedID
                                   @ ''}]' OR _access IS NULL OR _owner_id = ?)'',
                                 [VString (ID (user p))], None)))
         else Returns (sql, [], None))"

section \<open>Sort\<close>

text \<open>
  \<^verbatim>\<open>fmt.Sprintf("%f", x)\<close> for a \<^verbatim>\<open>float64\<close>: the bit pattern is a sign bit, eleven
  exponent bits \<open>e\<close> and fifty-two fraction bits \<open>m\<close>; its value \<open>M * 2^(E - 1075)\<close> is
  rounded to six decimal places (to nearest, ties to even) and printed with its sign;
  \<open>NaN\<close>, \<open>+Inf\<close> and \<open>-Inf\<close> for the special values.
\<close>

definition pad6 :: "nat \<Rightarrow> string" where
  "pad6 k = replicate (6 - length (formatNat k)) (CHR ''0'') @ formatNat k"

text \<open>A number of millionths, printed with six decimal places and its sign.\<close>

definition formatMillionths :: "bool \<Rightarrow> nat \<Rightarrow> string" where
  "formatMillionths neg n =
     (if neg then ''-'' else []) @ formatNat (n div 10 ^ 6) @ ''.'' @ pad6 (n mod 10 ^ 6)"

definition Sprintf_f :: "float64 \<Rightarrow> string" where
  "Sprintf_f w =
     (let bits = unat w;
          neg = (bits div 2 ^ 63 = 1);
          e = (bits div 2 ^ 52) mod 2 ^ 11;
          m = bits mod 2 ^ 52
      in if e = 2047 then (if m \<noteq> 0 then ''NaN'' else if neg then ''-Inf'' else ''+Inf'')
         else
           (let M = (if e = 0 then m else m + 2 ^ 52);
                E = (if e = 0 then 1 else e);
                num = M * 10 ^ 6 * 2 ^ (E - 1075);
                den = 2 ^ (1075 - E);
                q = num div den;
                r = num mod den;
                n = (if 2 * r > den \<or> (2 * r = den \<and> odd q) then q + 1 else q)
            in formatMillionths neg n))"

text \<open>
  \<^verbatim>\<open>fmt.Sprintf(format)\<close> with no operand, as \<^verbatim>\<open>sortOrderBySQL\<close> calls it on the text it
  has built. A format without a percent sign is printed as it is. What the library
  prints for a format with a percent sign (\<open>%!v(MISSING)\<close> and the like) is not modelled:
  \<open>None\<close>.
\<close>

definition Sprintf_format :: "string \<Rightarrow> string option" where
  "Sprintf_format format = (if CHR ''%'' \<in> set format then None else Some format)"

definition sortOrderOrderBySQL :: "sortOrder \<Rightarrow> string \<times> error option" where
  "sortOrderOrderBySQL order =
     (case order of
        Asc \<Rightarrow> (''ASC'', None)
      | Desc \<Rightarrow> (''DESC'', None)
      | _ \<Rightarrow> ([], Some (UnknownSortOrder order)))"

definition funcOrderBySQL :: "string \<Rightarrow> func \<Rightarrow> string \<times> error option" where
  "funcOrderBySQL alias fun =
     (case fun of
        DistanceFunc field loc \<Rightarrow>
          (''ST_Distance_Sphere('' @ fullQuoteIdentifier alias field @ '', ST_MakePoint(''
             @ Sprintf_f (Lng loc) @ '', '' @ Sprintf_f (Lat loc) @ ''))'', None)
      | _ \<Rightarrow> ([], Some (UnrecognizedFunc fun)))"

text \<open>
  \<^verbatim>\<open>sortOrderBySQL\<close> returns text and error only: it has no bind arguments to return.
  The outer \<open>option\<close> is \<open>None\<close> exactly where \<open>Sprintf_format\<close> is.
\<close>

definition sortOrderBySQL :: "string \<Rightarrow> sort \<Rightarrow> (string \<times> error option) option" where
  "sortOrderBySQL alias srt =
     (let exprResult =
            (if SortKeyPath srt \<noteq> [] then (fullQuoteIdentifier alias (SortKeyPath srt), None)
             else (case SortFunc srt of
                     Some fn \<Rightarrow> funcOrderBySQL alias fn
                   | None \<Rightarrow> ([], Some InvalidSort)))
      in case exprResult of
           (expr, Some err) \<Rightarrow> Some ([], Some err)
         | (expr, None) \<Rightarrow>
             (case sortOrderOrderBySQL (Order srt) of
                (order, Some err) \<Rightarrow> Some ([], Some err)
              | (order, None) \<Rightarrow>
                  (case Sprintf_format (expr @ '' '' @ order) of
                     None \<Rightarrow> None
                   | Some text \<Rightarrow> Some (text, None))))"

section \<open>Supported predicate trees\<close>

text \<open>The number of \<open>?\<close> placeholders of a fragment.\<close>

definition placeholderCount :: "string \<Rightarrow> nat" where
  "placeholderCount sql = count_list sql (CHR ''?'')"

text \<open>
  The expressions the expression compiler accepts. A key path is a string; a function
  is one of the three kinds \<^verbatim>\<open>funcToSQLOperand\<close> knows; a literal is any value. A name that
  goes into the SQL text (key path, distance field, user-data name) holds no question
  mark.
\<close>

fun supportedExpr :: "expression \<Rightarrow> bool" where
  "supportedExpr (Expression KeyPath v) =
     (case v of VString name \<Rightarrow> CHR ''?'' \<notin> set name | _ \<Rightarrow> False)"
| "supportedExpr (Expression Function v) =
     (case v of
        VFunc (DistanceFunc field loc) \<Rightarrow> CHR ''?'' \<notin> set field
      | VFunc (CountFunc overall) \<Rightarrow> True
      | VFunc (UserDataFunc name) \<Rightarrow> CHR ''?'' \<notin> set name
      | _ \<Rightarrow> False)"
| "supportedExpr (Expression Literal v) = True"

text \<open>
  The predicate trees of the spec's data model built from the supported operators: And
  and Or over one or more supported predicates, Not over exactly one, each of the eight
  binary comparisons over exactly two supported expressions, and In over a key path and
  a literal, in either order.
\<close>

fun supported :: "predicate \<Rightarrow> bool"
  and supportedChildren :: "child list \<Rightarrow> bool"
where
  "supported (Predicate op cs) =
     (if op = And \<or> op = Or then cs \<noteq> [] \<and> supportedChildren cs
      else if op = Not_op then
        (case cs of [PredicateChild q] \<Rightarrow> supported q | _ \<Rightarrow> False)
      else if op = In_op then
        (case cs of
           [ExpressionChild l, ExpressionChild r] \<Rightarrow>
             supportedExpr l \<and> supportedExpr r
               \<and> (Type l = Literal \<and> Type r = KeyPath \<or> Type l = KeyPath \<and> Type r = Literal)
         | _ \<Rightarrow> False)
      else if comparisonOperatorSQL op \<noteq> None then
        (case cs of
           [ExpressionChild l, ExpressionChild r] \<Rightarrow> supportedExpr l \<and> supportedExpr r
         | _ \<Rightarrow> False)
      else False)"
| "supportedChildren [] = True"
| "supportedChildren (PredicateChild q # cs) = (supported q \<and> supportedChildren cs)"
| "supportedChildren (ExpressionChild e # cs) = False"

section \<open>Erasing caller-supplied values\<close>

text \<open>
  What a query keeps when the values its caller supplies are taken out: a literal keeps
  its shape (a scalar, or an array of a given length), a \<open>UserRelationFunc\<close> loses the
  user it asks about, a \<open>UserDiscoverFunc\<close> keeps the number of its e-mail addresses.
  Operators, key paths, relation names and directions stay.
\<close>

fun literalShape :: "iface \<Rightarrow> iface" where
  "literalShape (VArray xs) = VArray (map (\<lambda>x. VNil) xs)"
| "literalShape v = VNil"

fun eraseFunc :: "func \<Rightarrow> func" where
  "eraseFunc (UserRelationFunc keyPath relationName relationDirection u) =
     UserRelationFunc keyPath relationName relationDirection []"
| "eraseFunc (UserDiscoverFunc emails) = UserDiscoverFunc (map (\<lambda>x. []) emails)"
| "eraseFunc fn = fn"

fun eraseExpression :: "expression \<Rightarrow> expression" where
  "eraseExpression (Expression Literal v) = Expression Literal (literalShape v)"
| "eraseExpression (Expression Function (VFunc fn)) = Expression Function (VFunc (eraseFunc fn))"
| "eraseExpression e = e"

fun erasePredicate :: "predicate \<Rightarrow> predicate"
  and eraseChild :: "child \<Rightarrow> child"
where
  "erasePredicate (Predicate op cs) = Predicate op (map eraseChild cs)"
| "eraseChild (PredicateChild p) = PredicateChild (erasePredicate p)"
| "eraseChild (ExpressionChild e) = ExpressionChild (eraseExpression e)"

text \<open>The text and the error of a result, without its bind arguments.\<close>

definition textOf :: "sqlResult \<Rightarrow> (string \<times> error option) outcome" where
  "textOf r = (case r of Panics m \<Rightarrow> Panics m | Returns (sql, args, err) \<Rightarrow> Returns (sql, err))"

text \<open>
  Everything but the bind arguments that compiling the predicate \<open>p\<close> in the session \<open>f\<close>
  produces: the panic, or the text, the error, and the session with the joins and
  columns the compilation has added. An error of the factory comes with no text.
\<close>

definition compiledText ::
  "predicateSqlizerFactory \<Rightarrow> predicate \<Rightarrow> (string \<times> error option \<times> predicateSqlizerFactory) outcome"
where
  "compiledText f p =
     (case newPredicateSqlizer f p of
        Panics m \<Rightarrow> Panics m
      | Returns (Inl err, f') \<Rightarrow> Returns ([], Some err, f')
      | Returns (Inr sqlizer, f') \<Rightarrow>
          (case textOf (ToSql sqlizer) of
             Panics m \<Rightarrow> Panics m
           | Returns (sql, err) \<Rightarrow> Returns (sql, err, f')))"

text \<open>
  Two results of the factory that agree in everything but the bind arguments of their
  sqlizers: the same panic, or the same error and session, or the same session and two
  sqlizers with the same text and error.
\<close>

definition sameCompilation :: "factoryResult \<Rightarrow> factoryResult \<Rightarrow> bool" where
  "sameCompilation r' r =
     (case r of
        Panics m \<Rightarrow> r' = Panics m
      | Returns (Inl err, f') \<Rightarrow> r' = Returns (Inl err, f')
      | Returns (Inr s, f') \<Rightarrow>
          (\<exists>s'. r' = Returns (Inr s', f') \<and> textOf (ToSql s') = textOf (ToSql s)))"

section \<open>A session used in the examples\<close>

text \<open>
  The session of a query on the record type \<open>note\<close>, in an application \<open>app\<close> whose user
  record type is \<open>user\<close>, before any join is requested.
\<close>

definition noteSession :: predicateSqlizerFactory where
  "noteSession = newPredicateSqlizerFactory \<lparr>DatabaseID = ''app'', UserRecordType = ''user''\<rparr> ''note''"

section \<open>Decimal and floating-point text\<close>

lemma digitChar_code: "d < 10 \<Longrightarrow> (of_char (digitChar d) :: nat) = 48 + d"
proof -
  assume "d < 10"
  then consider "d = 0" | "d = 1" | "d = 2" | "d = 3" | "d = 4" | "d = 5" | "d = 6"
    | "d = 7" | "d = 8" | "d = 9"
    by atomize_elim arith
  then show ?thesis
    by cases (simp_all add: digitChar_def)
qed

lemma digitChar_inj: "d < 10 \<Longrightarrow> d' < 10 \<Longrightarrow> digitChar d = digitChar d' \<Longrightarrow> d = d'"
proof -
  assume d: "d < 10" and d': "d' < 10" and eq: "digitChar d = digitChar d'"
  have "48 + d = (of_char (digitChar d) :: nat)"
    using d by (simp only: digitChar_code)
  also have "\<dots> = of_char (digitChar d')"
    by (simp only: eq)
  also have "\<dots> = 48 + d'"
    using d' by (simp only: digitChar_code)
  finally show ?thesis
    by (simp only: add_left_cancel)
qed

lemma formatNat_nonempty: "formatNat n \<noteq> []"
  by (subst formatNat.simps) simp

lemma formatNat_inj: "formatNat n = formatNat m \<Longrightarrow> n = m"
proof (induction n arbitrary: m rule: formatNat.induct)
  case (1 n)
  show ?case
  proof (cases "n < 10")
    case True
    note n = this
    show ?thesis
    proof (cases "m < 10")
      case True
      with n "1.prems" show ?thesis
        by (simp add: formatNat.simps [of n] formatNat.simps [of m] digitChar_inj)
    next
      case False
      with n "1.prems" formatNat_nonempty [of "m div 10"] show ?thesis
        by (simp add: formatNat.simps [of n] formatNat.simps [of m])
    qed
  next
    case False
    note n = this
    show ?thesis
    proof (cases "m < 10")
      case True
      with n "1.prems" formatNat_nonempty [of "n div 10"] show ?thesis
        by (simp add: formatNat.simps [of n] formatNat.simps [of m])
    next
      case False
      with n "1.prems" have eq: "formatNat (n div 10) = formatNat (m div 10)"
        and d: "digitChar (n mod 10) = digitChar (m mod 10)"
        by (simp_all add: formatNat.simps [of n] formatNat.simps [of m])
      from "1.IH" [OF n eq] have "n div 10 = m div 10" .
      moreover from d have "n mod 10 = m mod 10"
        by (intro digitChar_inj) simp_all
      ultimately show ?thesis
        by (metis div_mult_mod_eq)
    qed
  qed
qed

lemma digitChar_in: "d < 10 \<Longrightarrow> digitChar d \<in> set ''0123456789''"
  unfolding digitChar_def by (rule nth_mem) simp

lemma set_formatNat: "set (formatNat n) \<subseteq> set ''0123456789''"
proof (induction n rule: formatNat.induct)
  case (1 n)
  show ?case
  proof (cases "n < 10")
    case True
    with digitChar_in [of n] show ?thesis
      by (subst formatNat.simps) simp
  next
    case False
    have "n mod 10 < 10" by simp
    from "1.IH" [OF False] digitChar_in [OF this] False show ?thesis
      by (subst formatNat.simps) simp
  qed
qed

lemma set_pad6: "set (pad6 k) \<subseteq> set ''0123456789''"
  using set_formatNat [of k] by (auto simp: pad6_def)

lemma digits_subset: "set ''0123456789'' \<subseteq> set ''0123456789.-''"
  by auto

lemma set_formatMillionths: "set (formatMillionths neg n) \<subseteq> set ''0123456789.-''"
proof -
  have "set (formatMillionths neg n)
          = set (if neg then ''-'' else []) \<union> (set (formatNat (n div 10 ^ 6))
              \<union> (set ''.'' \<union> set (pad6 (n mod 10 ^ 6))))"
    by (simp only: formatMillionths_def set_append)
  moreover have "set (if neg then ''-'' else []) \<subseteq> set ''0123456789.-''"
    by (cases neg) simp_all
  moreover have "set ''.'' \<subseteq> set ''0123456789.-''"
    by simp
  moreover note set_formatNat [of "n div 10 ^ 6"] set_pad6 [of "n mod 10 ^ 6"] digits_subset
  ultimately show ?thesis
    by blast
qed

lemma Sprintf_f_shape:
  "Sprintf_f w \<in> {''NaN'', ''-Inf'', ''+Inf''} \<or> (\<exists>neg n. Sprintf_f w = formatMillionths neg n)"
  unfolding Sprintf_f_def Let_def
  apply (simp only: split: if_split)
  apply (intro conjI impI)
     apply blast+
  done

lemma set_Sprintf_f: "set (Sprintf_f w) \<subseteq> set ''0123456789.-+NaInf''"
proof -
  have sub: "set ''0123456789.-'' \<subseteq> set ''0123456789.-+NaInf''"
    by auto
  have special: "set s \<subseteq> set ''0123456789.-+NaInf''"
    if "s \<in> {''NaN'', ''-Inf'', ''+Inf''}" for s
    using that by auto
  from Sprintf_f_shape [of w] show ?thesis
  proof
    assume "Sprintf_f w \<in> {''NaN'', ''-Inf'', ''+Inf''}"
    then show ?thesis
      by (rule special)
  next
    assume "\<exists>neg n. Sprintf_f w = formatMillionths neg n"
    then obtain neg n where eq: "Sprintf_f w = formatMillionths neg n"
      by blast
    have "set (Sprintf_f w) \<subseteq> set ''0123456789.-''"
      unfolding eq by (rule set_formatMillionths)
    then show ?thesis
      using sub by (rule order_trans)
  qed
qed

lemma formatMillionths_114_2: "formatMillionths False 114200000 = ''114.200000''"
  by (simp add: formatMillionths_def pad6_def formatNat.simps digitChar_def)

lemma Sprintf_f_114_2: "Sprintf_f 0x405C8CCCCCCCCCCD = ''114.200000''"
proof -
  have "Sprintf_f 0x405C8CCCCCCCCCCD = formatMillionths False 114200000"
    by (simp add: Sprintf_f_def Let_def)
  then show ?thesis
    by (simp only: formatMillionths_114_2)
qed

lemma formatMillionths_22_29: "formatMillionths False 22290000 = ''22.290000''"
  by (simp add: formatMillionths_def pad6_def formatNat.simps digitChar_def)

lemma Sprintf_f_22_29: "Sprintf_f 0x40364A3D70A3D70A = ''22.290000''"
proof -
  have "Sprintf_f 0x40364A3D70A3D70A = formatMillionths False 22290000"
    by (simp add: Sprintf_f_def Let_def)
  then show ?thesis
    by (simp only: formatMillionths_22_29)
qed

section \<open>The join list\<close>

lemma equal_jt_iff: "equal_jt a b \<longleftrightarrow> a = b"
  by (cases a, cases b) (simp add: equal_jt_def)

lemma findJoin_None: "findJoin new xs i = None \<longleftrightarrow> new \<notin> set xs"
  by (induction xs arbitrary: i) (auto simp: equal_jt_iff)

lemma findJoin_Some:
  "findJoin new xs i = Some k \<Longrightarrow>
     i \<le> k \<and> k - i < length xs \<and> xs ! (k - i) = new \<and> (\<forall>j < k - i. xs ! j \<noteq> new)"
proof (induction xs arbitrary: i)
  case Nil
  then show ?case by simp
next
  case (Cons a xs)
  show ?case
  proof (cases "a = new")
    case True
    with Cons.prems show ?thesis by (simp add: equal_jt_iff)
  next
    case False
    with Cons.prems have "findJoin new xs (Suc i) = Some k"
      by (simp add: equal_jt_iff)
    from Cons.IH [OF this] have k: "Suc i \<le> k" "k - Suc i < length xs"
      "xs ! (k - Suc i) = new" "\<forall>j < k - Suc i. xs ! j \<noteq> new"
      by simp_all
    then have "k - i = Suc (k - Suc i)" by simp
    with k False show ?thesis
      by (auto simp: nth_Cons split: nat.splits)
  qed
qed

lemma findJoin_append:
  "findJoin new (xs @ ys) i =
     (case findJoin new xs i of Some k \<Rightarrow> Some k | None \<Rightarrow> findJoin new ys (i + length xs))"
  by (induction xs arbitrary: i) (auto split: option.splits)

lemma findJoin_extend:
  "findJoin new xs 0 = Some i \<Longrightarrow> findJoin new (xs @ ys) 0 = Some i"
  by (simp add: findJoin_append)

lemma findJoin_fresh:
  "new \<notin> set xs \<Longrightarrow> findJoin new (xs @ [new]) 0 = Some (length xs)"
proof -
  assume "new \<notin> set xs"
  then have "findJoin new xs 0 = None"
    by (simp add: findJoin_None)
  then show ?thesis
    by (simp add: findJoin_append equal_jt_iff)
qed

lemma createLeftJoin_found:
  "findJoin \<lparr>secondaryTable = t, primaryColumn = pc, secondaryColumn = sc\<rparr> (joinedTables f) 0 = Some i
     \<Longrightarrow> createLeftJoin f t pc sc = (aliasName t i, f)"
  by (simp add: createLeftJoin_def)

lemma createLeftJoin_index:
  assumes "createLeftJoin f t pc sc = (a, f')"
  shows "\<exists>i more. findJoin \<lparr>secondaryTable = t, primaryColumn = pc, secondaryColumn = sc\<rparr>
                     (joinedTables f') 0 = Some i
           \<and> a = aliasName t i \<and> joinedTables f' = joinedTables f @ more"
proof (cases "findJoin \<lparr>secondaryTable = t, primaryColumn = pc, secondaryColumn = sc\<rparr> (joinedTables f) 0")
  case None
  then have fresh: "\<lparr>secondaryTable = t, primaryColumn = pc, secondaryColumn = sc\<rparr> \<notin> set (joinedTables f)"
    by (simp add: findJoin_None)
  from None assms have a: "a = aliasName t (length (joinedTables f))"
    and f': "joinedTables f' = joinedTables f @ [\<lparr>secondaryTable = t, primaryColumn = pc, secondaryColumn = sc\<rparr>]"
    by (auto simp: createLeftJoin_def Let_def)
  from findJoin_fresh [OF fresh] a f' show ?thesis
    by simp
next
  case (Some i)
  with assms have "a = aliasName t i" and "f' = f"
    by (simp_all add: createLeftJoin_def)
  with Some show ?thesis
    by simp
qed

lemma aliasName_inj:
  assumes "aliasName t i = aliasName t' j" and "\<not> (t = ''_user'' \<and> t' = ''_user'')"
  shows "i = j"
proof -
  from assms have "formatNat i = formatNat j"
    by (auto simp: aliasName_def split: if_splits)
  then show ?thesis
    by (rule formatNat_inj)
qed

section \<open>Counting placeholders\<close>

lemma placeholderCount_append [simp]:
  "placeholderCount (a @ b) = placeholderCount a + placeholderCount b"
  by (simp add: placeholderCount_def)

lemma placeholderCount_Nil [simp]: "placeholderCount [] = 0"
  by (simp add: placeholderCount_def)

lemma placeholderCount_Cons [simp]:
  "placeholderCount (c # cs) = (if c = CHR ''?'' then 1 else 0) + placeholderCount cs"
  by (simp add: placeholderCount_def)

lemma placeholderCount_none: "CHR ''?'' \<notin> set s \<Longrightarrow> placeholderCount s = 0"
  by (induction s) auto

lemma set_doubleQuotes: "set (doubleQuotes s) \<subseteq> insert (CHR 0x22) (set s)"
  by (induction s) auto

lemma set_QuoteIdentifier: "set (QuoteIdentifier s) \<subseteq> insert (CHR 0x22) (set s)"
proof -
  have "set (takeWhile (\<lambda>c. c \<noteq> CHR 0x00) s) \<subseteq> set s"
    by (auto dest: set_takeWhileD)
  with set_doubleQuotes [of "takeWhile (\<lambda>c. c \<noteq> CHR 0x00) s"] show ?thesis
    by (auto simp: QuoteIdentifier_def)
qed

lemma set_fullQuoteIdentifier:
  "set (fullQuoteIdentifier a c) \<subseteq> {CHR 0x22, CHR ''.''} \<union> set a \<union> set c"
  using set_QuoteIdentifier [of a] set_QuoteIdentifier [of c]
  by (auto simp: fullQuoteIdentifier_def)

lemma placeholderCount_fullQuoteIdentifier:
  assumes "CHR ''?'' \<notin> set a" and "CHR ''?'' \<notin> set c"
  shows "placeholderCount (fullQuoteIdentifier a c) = 0"
proof (rule placeholderCount_none)
  from assms set_fullQuoteIdentifier [of a c] show "CHR ''?'' \<notin> set (fullQuoteIdentifier a c)"
    by auto
qed

lemma placeholderCount_repeat:
  "placeholderCount (concat (replicate n '',?'')) = n"
  by (induction n) simp_all

lemma placeholderCount_Placeholders: "placeholderCount (Placeholders n) = n"
proof (cases n)
  case 0
  then show ?thesis by (simp add: Placeholders_def)
next
  case (Suc k)
  have "placeholderCount (tl (concat (replicate (Suc k) '',?''))) = Suc k"
    using placeholderCount_repeat [of k] by simp
  with Suc show ?thesis
    by (simp add: Placeholders_def)
qed

lemma literalToSQLOperand_count:
  "literalToSQLOperand v = (sql, args) \<Longrightarrow> placeholderCount sql = length args"
  by (cases v) (auto simp: placeholderCount_Placeholders split: if_splits)

lemma funcToSQLOperand_count:
  assumes "supportedExpr (Expression Function (VFunc fn))" and "CHR ''?'' \<notin> set alias"
  shows "\<exists>sql args. funcToSQLOperand alias fn = Returns (sql, args)
           \<and> placeholderCount sql = length args"
  using assms
  by (cases fn) (auto simp: placeholderCount_fullQuoteIdentifier placeholderCount_none)

lemma expressionSqlizer_count:
  assumes "supportedExpr e" and "CHR ''?'' \<notin> set alias"
  shows "\<exists>sql args. expressionSqlizer_ToSql alias e = Returns (sql, args, None)
           \<and> placeholderCount sql = length args"
proof (cases e)
  case (Expression ty v)
  show ?thesis
  proof (cases ty)
    case Literal
    obtain sql args where "literalToSQLOperand v = (sql, args)"
      by (cases "literalToSQLOperand v")
    with literalToSQLOperand_count [OF this] Expression Literal show ?thesis
      by simp
  next
    case KeyPath
    with assms Expression show ?thesis
      by (cases v) (simp_all add: placeholderCount_fullQuoteIdentifier)
  next
    case Function
    with assms Expression obtain fn where v: "v = VFunc fn"
      by (cases v) simp_all
    from funcToSQLOperand_count [of fn "alias"] assms Expression Function v
    obtain sql args where "funcToSQLOperand alias fn = Returns (sql, args)"
      and "placeholderCount sql = length args"
      by auto
    with Expression Function v show ?thesis
      by simp
  qed
qed

lemma comparisonOperatorSQL_count:
  "comparisonOperatorSQL op = Some opSQL \<Longrightarrow> placeholderCount opSQL = 0"
  by (cases op) auto

lemma comparisonOperatorSQL_binary:
  "comparisonOperatorSQL op = Some opSQL \<Longrightarrow> IsBinary op"
  by (cases op) auto

lemma comparison_count:
  assumes l: "supportedExpr l" and r: "supportedExpr r" and noq: "CHR ''?'' \<notin> set alias"
    and op: "comparisonOperatorSQL op \<noteq> None"
  shows "\<exists>sql args.
           comparisonPredicateSqlizer_ToSql alias (Predicate op [ExpressionChild l, ExpressionChild r])
             = Returns (sql, args, None)
           \<and> placeholderCount sql = length args"
proof -
  from op obtain opSQL where opSQL: "comparisonOperatorSQL op = Some opSQL"
    by auto
  from expressionSqlizer_count [OF l noq] obtain sl al where
    sl: "expressionSqlizer_ToSql alias l = Returns (sl, al, None)" "placeholderCount sl = length al"
    by blast
  from expressionSqlizer_count [OF r noq] obtain sr ar where
    sr: "expressionSqlizer_ToSql alias r = Returns (sr, ar, None)" "placeholderCount sr = length ar"
    by blast
  from opSQL sl sr comparisonOperatorSQL_count [OF opSQL] comparisonOperatorSQL_binary [OF opSQL]
  show ?thesis
    by (simp add: comparisonPredicateSqlizer_ToSql_def childExpression_def)
qed

lemma contains_count:
  assumes l: "supportedExpr l" and r: "supportedExpr r" and noq: "CHR ''?'' \<notin> set alias"
    and pairing: "Type l = Literal \<and> Type r = KeyPath \<or> Type l = KeyPath \<and> Type r = Literal"
  shows "\<exists>sql args.
           containsComparisonPredicateSqlizer_ToSql alias (Predicate op [ExpressionChild l, ExpressionChild r])
             = Returns (sql, args, None)
           \<and> placeholderCount sql = length args"
proof -
  from expressionSqlizer_count [OF l noq] obtain sl al where
    sl: "expressionSqlizer_ToSql alias l = Returns (sl, al, None)" "placeholderCount sl = length al"
    by blast
  from expressionSqlizer_count [OF r noq] obtain sr ar where
    sr: "expressionSqlizer_ToSql alias r = Returns (sr, ar, None)" "placeholderCount sr = length ar"
    by blast
  from pairing sl sr show ?thesis
    by (auto simp: containsComparisonPredicateSqlizer_ToSql_def childExpression_def)
qed

lemma placeholderCount_joinStrings:
  "placeholderCount sep = 0 \<Longrightarrow>
     placeholderCount (joinStrings parts sep) = sum_list (map placeholderCount parts)"
  by (induction parts sep rule: joinStrings.induct) simp_all

lemma joinParts_count:
  assumes "\<forall>s \<in> set ss. \<exists>sql args. ToSql s = Returns (sql, args, None)
             \<and> placeholderCount sql = length args"
  shows "\<exists>sqlParts args. joinParts ss = Returns (sqlParts, args, None)
           \<and> sum_list (map placeholderCount sqlParts) = length args"
  using assms
proof (induction ss)
  case Nil
  then show ?case by simp
next
  case (Cons s ss)
  from Cons.prems obtain sql args where
    s: "ToSql s = Returns (sql, args, None)" "placeholderCount sql = length args"
    by auto
  from Cons obtain sqlParts args' where
    ss: "joinParts ss = Returns (sqlParts, args', None)"
      "sum_list (map placeholderCount sqlParts) = length args'"
    by auto
  from s ss show ?case
    by (cases "sql = []") simp_all
qed

lemma conj_count:
  assumes "\<forall>s \<in> set ss. \<exists>sql args. ToSql s = Returns (sql, args, None)
             \<and> placeholderCount sql = length args"
  shows "(\<exists>sql args. ToSql (And_sq ss) = Returns (sql, args, None)
            \<and> placeholderCount sql = length args)
       \<and> (\<exists>sql args. ToSql (Or_sq ss) = Returns (sql, args, None)
            \<and> placeholderCount sql = length args)"
proof -
  from joinParts_count [OF assms] obtain sqlParts args where
    "joinParts ss = Returns (sqlParts, args, None)"
    "sum_list (map placeholderCount sqlParts) = length args"
    by blast
  then show ?thesis
    by (cases "sqlParts = []") (simp_all add: placeholderCount_joinStrings)
qed

lemma one_predicate_child:
  assumes "(case cs of [PredicateChild q] \<Rightarrow> P q | _ \<Rightarrow> False)"
  shows "\<exists>q. cs = [PredicateChild q] \<and> P q"
proof (cases cs)
  case Nil
  with assms show ?thesis by simp
next
  case (Cons c rest)
  with assms show ?thesis
    by (cases c; cases rest) simp_all
qed

lemma two_expression_children:
  assumes "(case cs of [ExpressionChild l, ExpressionChild r] \<Rightarrow> P l r | _ \<Rightarrow> False)"
  shows "\<exists>l r. cs = [ExpressionChild l, ExpressionChild r] \<and> P l r"
proof (cases cs)
  case Nil
  with assms show ?thesis by simp
next
  case outer: (Cons c1 r1)
  show ?thesis
  proof (cases r1)
    case Nil
    with outer assms show ?thesis
      by (cases c1) simp_all
  next
    case (Cons c2 r2)
    with outer assms show ?thesis
      by (cases c1; cases c2; cases r2) simp_all
  qed
qed

lemma supported_compiles:
  "supported p \<Longrightarrow> CHR ''?'' \<notin> set (primaryTable f) \<Longrightarrow>
     \<exists>s sql args. newPredicateSqlizer f p = Returns (Inr s, f)
       \<and> ToSql s = Returns (sql, args, None) \<and> placeholderCount sql = length args"
  and supportedChildren_compile:
  "supportedChildren cs \<Longrightarrow> CHR ''?'' \<notin> set (primaryTable f) \<Longrightarrow>
     \<exists>ss. newChildSqlizers f cs = Returns (Inr ss, f)
       \<and> (\<forall>s \<in> set ss. \<exists>sql args. ToSql s = Returns (sql, args, None)
             \<and> placeholderCount sql = length args)"
proof (induction p and cs arbitrary: f and f rule: supported_supportedChildren.induct)
  case (1 op cs)
  note noq = \<open>CHR ''?'' \<notin> set (primaryTable f)\<close>
  consider (conj) "op = And \<or> op = Or"
    | (neg) "op = Not_op"
    | (contains) "op = In_op"
    | (cmp) "op \<noteq> And" "op \<noteq> Or" "op \<noteq> Not_op" "op \<noteq> In_op"
    by blast
  then show ?case
  proof cases
    case conj
    with "1.prems" have cs: "cs \<noteq> []" "supportedChildren cs"
      by auto
    from "1.IH"(1) [OF conj cs(2) noq] obtain ss where
      ss: "newChildSqlizers f cs = Returns (Inr ss, f)"
      and good: "\<forall>s \<in> set ss. \<exists>sql args. ToSql s = Returns (sql, args, None)
                   \<and> placeholderCount sql = length args"
      by blast
    from conj_count [OF good] conj cs ss show ?thesis
      by (auto simp: IsEmpty_def)
  next
    case neg
    with "1.prems" have "(case cs of [PredicateChild q] \<Rightarrow> supported q | _ \<Rightarrow> False)"
      by simp
    from one_predicate_child [OF this] obtain q where cs: "cs = [PredicateChild q]"
      and q: "supported q"
      by blast
    from "1.IH"(2) [OF _ neg cs refl refl q noq] neg obtain s sql args where
      "newPredicateSqlizer f q = Returns (Inr s, f)"
      "ToSql s = Returns (sql, args, None)" "placeholderCount sql = length args"
      by auto
    with neg cs show ?thesis
      by (simp add: IsEmpty_def)
  next
    case contains
    with "1.prems" have
      "(case cs of
          [ExpressionChild l, ExpressionChild r] \<Rightarrow>
            supportedExpr l \<and> supportedExpr r
              \<and> (Type l = Literal \<and> Type r = KeyPath \<or> Type l = KeyPath \<and> Type r = Literal)
        | _ \<Rightarrow> False)"
      by simp
    from two_expression_children [OF this] obtain l r where
      cs: "cs = [ExpressionChild l, ExpressionChild r]"
      and lr: "supportedExpr l" "supportedExpr r"
        "Type l = Literal \<and> Type r = KeyPath \<or> Type l = KeyPath \<and> Type r = Literal"
      by blast
    from contains_count [OF lr(1,2) noq lr(3), of op] contains cs show ?thesis
      by (simp add: IsEmpty_def)
  next
    case cmp
    with "1.prems" have op: "comparisonOperatorSQL op \<noteq> None"
      and "(case cs of
              [ExpressionChild l, ExpressionChild r] \<Rightarrow> supportedExpr l \<and> supportedExpr r
            | _ \<Rightarrow> False)"
      by (simp_all split: if_splits)
    from two_expression_children [OF this(2)] obtain l r where
      cs: "cs = [ExpressionChild l, ExpressionChild r]"
      and lr: "supportedExpr l" "supportedExpr r"
      by blast
    from op have "op \<noteq> NoOperator" "op \<noteq> Functional" "\<not> IsCompound op"
      by (cases op; simp)+
    with comparison_count [OF lr noq op] cmp cs show ?thesis
      by (simp add: IsEmpty_def)
  qed
next
  case 2
  then show ?case by simp
next
  case (3 q cs)
  from "3.prems" have q: "supported q" and cs: "supportedChildren cs"
    by simp_all
  from "3.IH"(1) [OF q "3.prems"(2)] obtain s where
    s: "newPredicateSqlizer f q = Returns (Inr s, f)"
    and good: "\<exists>sql args. ToSql s = Returns (sql, args, None) \<and> placeholderCount sql = length args"
    by blast
  from "3.IH"(2) [OF cs "3.prems"(2)] obtain ss where
    "newChildSqlizers f cs = Returns (Inr ss, f)"
    "\<forall>s \<in> set ss. \<exists>sql args. ToSql s = Returns (sql, args, None)
       \<and> placeholderCount sql = length args"
    by blast
  with s good show ?case
    by auto
next
  case (4 e cs)
  then show ?case by simp
qed

lemma joinStrings_placeholders:
  "joinStrings (replicate (Suc n) ''?'') '','' = ''?'' @ concat (replicate n '',?'')"
  by (induction n) simp_all

lemma Placeholders_Suc:
  "Placeholders (Suc n) = joinStrings (replicate (Suc n) ''?'') '',''"
proof -
  have "Placeholders (Suc n) = ''?'' @ concat (replicate n '',?'')"
    by (simp add: Placeholders_def)
  then show ?thesis
    by (simp only: joinStrings_placeholders)
qed

lemma literalToSQLValue_eq:
  "literalToSQLValue v = (case v of VReference t k \<Rightarrow> VString k | _ \<Rightarrow> v)"
  by (cases v) simp_all


section \<open>The access-control fragment\<close>

lemma rolesSQL_returns:
  "rolesSQL roles =
     Returns (concat (map (\<lambda>role. ''_access @> '[{\"role\":'' @ fst (jsonMarshal role) @ ''}]' OR '') roles))"
  by (induction roles) (simp_all add: jsonMarshal_def)

lemma accessPredicateSqlizer_ToSql_eq:
  "accessPredicateSqlizer_ToSql p =
     (if ID (user p) \<noteq> [] then
        Returns (''('' @ concat (map (\<lambda>role. ''_access @> '[{\"role\":'' @ fst (jsonMarshal role) @ ''}]' OR '')
                                  (Roles (user p)))
                   @ ''_access @> '[{\"user_id\":'' @ fst (jsonMarshal (ID (user p)))
                   @ ''}]' OR _access IS NULL OR _owner_id = ?)'',
                 [VString (ID (user p))], None)
      else Returns ([], [], None))"
  by (simp add: accessPredicateSqlizer_ToSql_def rolesSQL_returns jsonMarshal_def)

section \<open>Compiling an erased predicate\<close>

lemma literalShape_text: "fst (literalToSQLOperand (literalShape v)) = fst (literalToSQLOperand v)"
  by (cases v) simp_all

lemma funcToSQLOperand_erase: "funcToSQLOperand a (eraseFunc fn) = funcToSQLOperand a fn"
  by (cases fn) simp_all

lemma Type_eraseExpression [simp]: "Type (eraseExpression e) = Type e"
  by (induction e rule: eraseExpression.induct) simp_all

lemma expressionSqlizer_erase:
  "textOf (expressionSqlizer_ToSql a (eraseExpression e)) = textOf (expressionSqlizer_ToSql a e)"
proof (induction e rule: eraseExpression.induct)
  case (1 v)
  obtain sql args where v: "literalToSQLOperand v = (sql, args)"
    by (cases "literalToSQLOperand v")
  obtain sql' args' where v': "literalToSQLOperand (literalShape v) = (sql', args')"
    by (cases "literalToSQLOperand (literalShape v)")
  from literalShape_text [of v] v v' have "sql' = sql"
    by simp
  with v v' show ?case
    by (simp add: textOf_def)
next
  case (2 fn)
  show ?case
    by (simp add: funcToSQLOperand_erase)
qed simp_all

lemma expressionSqlizer_erase_Panics:
  "expressionSqlizer_ToSql a e = Panics m \<Longrightarrow> expressionSqlizer_ToSql a (eraseExpression e) = Panics m"
  using expressionSqlizer_erase [of a e]
  by (cases "expressionSqlizer_ToSql a (eraseExpression e)") (auto simp: textOf_def)

lemma expressionSqlizer_erase_Returns:
  "expressionSqlizer_ToSql a e = Returns (sql, args, err) \<Longrightarrow>
     \<exists>args'. expressionSqlizer_ToSql a (eraseExpression e) = Returns (sql, args', err)"
  using expressionSqlizer_erase [of a e]
  by (cases "expressionSqlizer_ToSql a (eraseExpression e)") (auto simp: textOf_def)

lemma Operator_erasePredicate [simp]: "Operator (erasePredicate p) = Operator p"
  by (cases p) simp

lemma IsEmpty_erasePredicate [simp]: "IsEmpty (erasePredicate p) = IsEmpty p"
  by (cases p) (simp add: IsEmpty_def)

lemma childExpression_erase:
  "childExpression (erasePredicate p) i =
     (case childExpression p i of Panics m \<Rightarrow> Panics m | Returns e \<Rightarrow> Returns (eraseExpression e))"
proof (cases p)
  case (Predicate op cs)
  show ?thesis
  proof (cases "i < length cs")
    case True
    with Predicate show ?thesis
      by (cases "cs ! i") (simp_all add: childExpression_def)
  next
    case False
    with Predicate show ?thesis
      by (simp add: childExpression_def)
  qed
qed

lemma comparison_erase:
  "textOf (comparisonPredicateSqlizer_ToSql a (erasePredicate p))
     = textOf (comparisonPredicateSqlizer_ToSql a p)"
proof (cases "IsBinary (Operator p)")
  case False
  then show ?thesis
    by (simp add: comparisonPredicateSqlizer_ToSql_def)
next
  case binary: True
  show ?thesis
  proof (cases "childExpression p 0")
    case (Panics m)
    with binary show ?thesis
      by (simp add: comparisonPredicateSqlizer_ToSql_def childExpression_erase)
  next
    case l: (Returns l)
    show ?thesis
    proof (cases "childExpression p 1")
      case (Panics m)
      with binary l show ?thesis
        by (simp add: comparisonPredicateSqlizer_ToSql_def childExpression_erase)
    next
      case r: (Returns r)
      show ?thesis
      proof (cases "expressionSqlizer_ToSql a l")
        case (Panics m)
        with expressionSqlizer_erase_Panics [OF this] binary l r show ?thesis
          by (simp add: comparisonPredicateSqlizer_ToSql_def childExpression_erase)
      next
        case (Returns x)
        then obtain sl al el where sl: "expressionSqlizer_ToSql a l = Returns (sl, al, el)"
          by (cases x) auto
        from expressionSqlizer_erase_Returns [OF sl] obtain al' where
          sl': "expressionSqlizer_ToSql a (eraseExpression l) = Returns (sl, al', el)"
          by blast
        show ?thesis
        proof (cases "expressionSqlizer_ToSql a r")
          case (Panics m)
          with expressionSqlizer_erase_Panics [OF this] binary l r sl sl' show ?thesis
            by (simp add: comparisonPredicateSqlizer_ToSql_def childExpression_erase textOf_def
                split: option.splits)
        next
          case (Returns y)
          then obtain sr ar er where sr: "expressionSqlizer_ToSql a r = Returns (sr, ar, er)"
            by (cases y) auto
          from expressionSqlizer_erase_Returns [OF sr] obtain ar' where
            "expressionSqlizer_ToSql a (eraseExpression r) = Returns (sr, ar', er)"
            by blast
          with binary l r sl sl' sr show ?thesis
            by (simp add: comparisonPredicateSqlizer_ToSql_def childExpression_erase textOf_def
                split: option.splits)
        qed
      qed
    qed
  qed
qed

lemma contains_erase:
  "textOf (containsComparisonPredicateSqlizer_ToSql a (erasePredicate p))
     = textOf (containsComparisonPredicateSqlizer_ToSql a p)"
proof (cases "childExpression p 0")
  case (Panics m)
  then show ?thesis
    by (simp add: containsComparisonPredicateSqlizer_ToSql_def childExpression_erase)
next
  case l: (Returns l)
  show ?thesis
  proof (cases "childExpression p 1")
    case (Panics m)
    with l show ?thesis
      by (simp add: containsComparisonPredicateSqlizer_ToSql_def childExpression_erase)
  next
    case r: (Returns r)
    have "textOf (expressionSqlizer_ToSql a (eraseExpression l)) = textOf (expressionSqlizer_ToSql a l)"
      and "textOf (expressionSqlizer_ToSql a (eraseExpression r)) = textOf (expressionSqlizer_ToSql a r)"
      by (rule expressionSqlizer_erase)+
    with l r show ?thesis
      by (auto simp: containsComparisonPredicateSqlizer_ToSql_def childExpression_erase textOf_def
          split: outcome.splits)
  qed
qed

lemma userRelation_text:
  "textOf (userRelationPredicateSqlizer_ToSql outwardAlias inwardAlias u)
     = textOf (userRelationPredicateSqlizer_ToSql outwardAlias inwardAlias u')"
  by (simp add: userRelationPredicateSqlizer_ToSql_def textOf_def)

lemma newUserRelation_erase:
  "sameCompilation
     (newUserRelationFunctionalPredicateSqlizer f keyPath relationName relationDirection [])
     (newUserRelationFunctionalPredicateSqlizer f keyPath relationName relationDirection u)"
  by (simp add: newUserRelationFunctionalPredicateSqlizer_def sameCompilation_def Let_def
      userRelation_text [of _ _ "[]" u] split: prod.splits)

lemma discover_text:
  "length xs = length ys \<Longrightarrow>
   textOf (containsComparisonPredicateSqlizer_ToSql a
      (Predicate In_op [ExpressionChild (Expression KeyPath (VString ''email'')),
                        ExpressionChild (Expression Literal (VArray xs))]))
   = textOf (containsComparisonPredicateSqlizer_ToSql a
      (Predicate In_op [ExpressionChild (Expression KeyPath (VString ''email'')),
                        ExpressionChild (Expression Literal (VArray ys))]))"
  by (simp add: containsComparisonPredicateSqlizer_ToSql_def childExpression_def textOf_def)

lemma newUserDiscover_erase:
  "sameCompilation
     (newUserDiscoverFunctionalPredicateSqlizer f (UserDiscoverFunc (map (\<lambda>x. []) emails)))
     (newUserDiscoverFunctionalPredicateSqlizer f (UserDiscoverFunc emails))"
proof -
  have "length (map (VString \<circ> (\<lambda>x. [])) emails) = length (map VString emails)"
    by simp
  from discover_text [OF this] show ?thesis
    by (simp add: newUserDiscoverFunctionalPredicateSqlizer_def sameCompilation_def Let_def
        ArgsByName_def split: prod.splits)
qed

lemma newFunctional_erase:
  "sameCompilation (newFunctionalPredicateSqlizer f (erasePredicate p))
     (newFunctionalPredicateSqlizer f p)"
proof (cases "childExpression p 0")
  case (Panics m)
  then show ?thesis
    by (simp add: newFunctionalPredicateSqlizer_def childExpression_erase sameCompilation_def)
next
  case (Returns e)
  show ?thesis
  proof (cases e)
    case (Expression ty v)
    show ?thesis
    proof (cases "ty = Function")
      case False
      with Returns Expression show ?thesis
        by (simp add: newFunctionalPredicateSqlizer_def childExpression_erase sameCompilation_def)
    next
      case True
      show ?thesis
      proof (cases v)
        case (VFunc fn)
        with Returns Expression True newUserRelation_erase newUserDiscover_erase show ?thesis
          by (cases fn)
            (simp_all add: newFunctionalPredicateSqlizer_def childExpression_erase sameCompilation_def)
      qed (use Returns Expression True in
            \<open>simp_all add: newFunctionalPredicateSqlizer_def childExpression_erase sameCompilation_def\<close>)
    qed
  qed
qed

lemma joinParts_same_text:
  assumes "list_all2 (\<lambda>s' s. textOf (ToSql s') = textOf (ToSql s)) ss' ss"
  shows "(case joinParts ss of
            Panics m \<Rightarrow> joinParts ss' = Panics m
          | Returns (sqlParts, args, err) \<Rightarrow> (\<exists>args'. joinParts ss' = Returns (sqlParts, args', err)))"
  using assms
proof (induction rule: list_all2_induct)
  case Nil
  then show ?case by simp
next
  case (Cons s' ss' s ss)
  show ?case
  proof (cases "ToSql s")
    case (Panics m)
    with Cons.hyps(1) have "ToSql s' = Panics m"
      by (cases "ToSql s'") (auto simp: textOf_def)
    with Panics show ?thesis
      by simp
  next
    case (Returns x)
    then obtain sql args err where s: "ToSql s = Returns (sql, args, err)"
      by (cases x) auto
    with Cons.hyps(1) obtain args' where s': "ToSql s' = Returns (sql, args', err)"
      by (cases "ToSql s'") (auto simp: textOf_def)
    show ?thesis
    proof (cases err)
      case (Some e)
      with s s' show ?thesis
        by simp
    next
      case None
      show ?thesis
      proof (cases "joinParts ss")
        case (Panics m)
        with Cons.IH s s' None show ?thesis
          by simp
      next
        case (Returns y)
        then obtain sqlParts pargs perr where ss: "joinParts ss = Returns (sqlParts, pargs, perr)"
          by (cases y) auto
        with Cons.IH obtain pargs' where "joinParts ss' = Returns (sqlParts, pargs', perr)"
          by auto
        with ss s s' None show ?thesis
          by (cases perr) simp_all
      qed
    qed
  qed
qed

lemma conj_same_text:
  assumes "list_all2 (\<lambda>s' s. textOf (ToSql s') = textOf (ToSql s)) ss' ss"
  shows "textOf (ToSql (And_sq ss')) = textOf (ToSql (And_sq ss))"
    and "textOf (ToSql (Or_sq ss')) = textOf (ToSql (Or_sq ss))"
  using joinParts_same_text [OF assms]
  by (auto simp: textOf_def split: outcome.splits)

lemma Not_same_text:
  assumes "textOf (ToSql s') = textOf (ToSql s)"
  shows "textOf (ToSql (NotSqlizer s')) = textOf (ToSql (NotSqlizer s))"
  using assms by (auto simp: textOf_def split: outcome.splits)

lemma newPredicateSqlizer_unfold:
  "newPredicateSqlizer f (erasePredicate (Predicate op cs)) =
     (if IsEmpty (Predicate op cs) then Panics ''no sqlizer can be created from an empty predicate''
      else if op = Functional then newFunctionalPredicateSqlizer f (erasePredicate (Predicate op cs))
      else if IsCompound op then newCompoundPredicateSqlizer f (erasePredicate (Predicate op cs))
      else if op = In_op
        then Returns (Inr (containsComparisonPredicateSqlizer (primaryTable f)
                             (erasePredicate (Predicate op cs))), f)
      else Returns (Inr (comparisonPredicateSqlizer (primaryTable f)
                           (erasePredicate (Predicate op cs))), f))"
  by (simp add: IsEmpty_def del: newCompoundPredicateSqlizer.simps)

lemma newPredicateSqlizer_erase:
  "sameCompilation (newPredicateSqlizer f (erasePredicate p)) (newPredicateSqlizer f p)"
  and newCompoundPredicateSqlizer_erase:
  "sameCompilation (newCompoundPredicateSqlizer f (erasePredicate p))
     (newCompoundPredicateSqlizer f p)"
  and newChildSqlizers_erase:
  "(case newChildSqlizers f cs of
      Panics m \<Rightarrow> newChildSqlizers f (map eraseChild cs) = Panics m
    | Returns (Inl err, f') \<Rightarrow> newChildSqlizers f (map eraseChild cs) = Returns (Inl err, f')
    | Returns (Inr ss, f') \<Rightarrow>
        (\<exists>ss'. newChildSqlizers f (map eraseChild cs) = Returns (Inr ss', f')
           \<and> list_all2 (\<lambda>s' s. textOf (ToSql s') = textOf (ToSql s)) ss' ss))"
proof (induction f p and f p and f cs
    rule: newPredicateSqlizer_newCompoundPredicateSqlizer_newChildSqlizers.induct)
  case (1 f op cs)
  show ?case
  proof (cases "\<not> IsEmpty (Predicate op cs) \<and> op \<noteq> Functional \<and> IsCompound op")
    case True
    with "1.IH" have "sameCompilation (newCompoundPredicateSqlizer f (erasePredicate (Predicate op cs)))
        (newCompoundPredicateSqlizer f (Predicate op cs))"
      by blast
    with True show ?thesis
      by (simp only: newPredicateSqlizer_unfold newPredicateSqlizer.simps if_False if_True simp_thms)
  next
    case False
    with newFunctional_erase [of f "Predicate op cs"]
      contains_erase [of "primaryTable f" "Predicate op cs"]
      comparison_erase [of "primaryTable f" "Predicate op cs"]
    show ?thesis
      by (auto simp add: newPredicateSqlizer_unfold sameCompilation_def
          simp del: newCompoundPredicateSqlizer.simps erasePredicate.simps)
  qed
next
  case (2 f op cs)
  consider (conj) "op = And \<or> op = Or" | (neg) "op = Not_op"
    | (other) "op \<noteq> And" "op \<noteq> Or" "op \<noteq> Not_op"
    by blast
  then show ?case
  proof cases
    case conj
    with "2.IH"(1,2) have children:
      "(case newChildSqlizers f cs of
          Panics m \<Rightarrow> newChildSqlizers f (map eraseChild cs) = Panics m
        | Returns (Inl err, f') \<Rightarrow> newChildSqlizers f (map eraseChild cs) = Returns (Inl err, f')
        | Returns (Inr ss, f') \<Rightarrow>
            (\<exists>ss'. newChildSqlizers f (map eraseChild cs) = Returns (Inr ss', f')
               \<and> list_all2 (\<lambda>s' s. textOf (ToSql s') = textOf (ToSql s)) ss' ss))"
      by blast
    show ?thesis
    proof (cases "newChildSqlizers f cs")
      case (Panics m)
      with children conj show ?thesis
        by (auto simp: sameCompilation_def)
    next
      case (Returns x)
      obtain res f' where x: "x = (res, f')"
        by (cases x)
      show ?thesis
      proof (cases res)
        case (Inl err)
        with children conj Returns x show ?thesis
          by (auto simp: sameCompilation_def)
      next
        case (Inr ss)
        with children Returns x obtain ss' where
          ss': "newChildSqlizers f (map eraseChild cs) = Returns (Inr ss', f')"
          and rel: "list_all2 (\<lambda>s' s. textOf (ToSql s') = textOf (ToSql s)) ss' ss"
          by auto
        from conj_same_text [OF rel] conj Returns x Inr ss' show ?thesis
          by (auto simp: sameCompilation_def)
      qed
    qed
  next
    case neg
    show ?thesis
    proof (cases cs)
      case Nil
      with neg show ?thesis
        by (simp add: sameCompilation_def)
    next
      case (Cons c rest)
      show ?thesis
      proof (cases c)
        case (ExpressionChild e)
        with neg Cons show ?thesis
          by (simp add: sameCompilation_def)
      next
        case (PredicateChild q)
        from "2.IH"(3) [OF neg Cons PredicateChild]
        have q: "sameCompilation (newPredicateSqlizer f (erasePredicate q)) (newPredicateSqlizer f q)" .
        show ?thesis
        proof (cases "newPredicateSqlizer f q")
          case (Panics m)
          with q neg Cons PredicateChild show ?thesis
            by (simp add: sameCompilation_def)
        next
          case (Returns x)
          obtain res f' where x: "x = (res, f')"
            by (cases x)
          show ?thesis
          proof (cases res)
            case (Inl err)
            with q neg Cons PredicateChild Returns x show ?thesis
              by (simp add: sameCompilation_def)
          next
            case (Inr s)
            with q Returns x obtain s' where
              s': "newPredicateSqlizer f (erasePredicate q) = Returns (Inr s', f')"
              and rel: "textOf (ToSql s') = textOf (ToSql s)"
              by (auto simp: sameCompilation_def)
            from Not_same_text [OF rel] neg Cons PredicateChild Returns x Inr s' show ?thesis
              by (simp add: sameCompilation_def)
          qed
        qed
      qed
    qed
  next
    case other
    then show ?thesis
      by (cases op) (simp_all add: sameCompilation_def)
  qed
next
  case (3 f)
  show ?case by simp
next
  case (4 f e rest)
  show ?case by simp
next
  case (5 f child rest)
  note child = "5.IH"(1)
  show ?case
  proof (cases "newPredicateSqlizer f child")
    case (Panics m)
    with child show ?thesis
      by (simp add: sameCompilation_def)
  next
    case (Returns x)
    obtain res f' where x: "x = (res, f')"
      by (cases x)
    show ?thesis
    proof (cases res)
      case (Inl err)
      with child Returns x show ?thesis
        by (simp add: sameCompilation_def)
    next
      case (Inr s)
      with child Returns x obtain s' where
        s': "newPredicateSqlizer f (erasePredicate child) = Returns (Inr s', f')"
        and rel: "textOf (ToSql s') = textOf (ToSql s)"
        by (auto simp: sameCompilation_def)
      from "5.IH"(2) [OF Returns x [symmetric] Inr]
      have rest:
        "(case newChildSqlizers f' rest of
            Panics m \<Rightarrow> newChildSqlizers f' (map eraseChild rest) = Panics m
          | Returns (Inl err, f'') \<Rightarrow> newChildSqlizers f' (map eraseChild rest) = Returns (Inl err, f'')
          | Returns (Inr ss, f'') \<Rightarrow>
              (\<exists>ss'. newChildSqlizers f' (map eraseChild rest) = Returns (Inr ss', f'')
                 \<and> list_all2 (\<lambda>s' s. textOf (ToSql s') = textOf (ToSql s)) ss' ss))" .
      show ?thesis
      proof (cases "newChildSqlizers f' rest")
        case (Panics m)
        with rest Returns x Inr s' show ?thesis
          by simp
      next
        case rest_returns: (Returns y)
        obtain res' f'' where y: "y = (res', f'')"
          by (cases y)
        show ?thesis
        proof (cases res')
          case (Inl err)
          with rest rest_returns y Returns x Inr s' show ?thesis
            by simp
        next
          case inr: (Inr ss)
          with rest rest_returns y obtain ss' where
            "newChildSqlizers f' (map eraseChild rest) = Returns (Inr ss', f'')"
            "list_all2 (\<lambda>s' s. textOf (ToSql s') = textOf (ToSql s)) ss' ss"
            by auto
          with rel rest_returns y inr Returns x Inr s' show ?thesis
            by simp
        qed
      qed
    qed
  qed
qed

lemma compiledText_erase: "compiledText f (erasePredicate p) = compiledText f p"
  using newPredicateSqlizer_erase [of f p]
  by (auto simp: compiledText_def sameCompilation_def split: outcome.splits sum.splits prod.splits)

section \<open>Claims\<close>

subsection \<open>C1: Not over a child that compiles\<close>

lemma NotSqlizer_ToSql_success:
  "ToSql s = Returns (sql, args, None) \<Longrightarrow> ToSql (NotSqlizer s) = Returns (sql, args, None)"
  by simp

lemma NotSqlizer_ToSql_failure:
  "ToSql s = Returns (sql, args, Some e) \<Longrightarrow>
     ToSql (NotSqlizer s) = Returns (''NOT ('' @ sql @ '')'', args, Some e)"
  by simp

text \<open>
  C1. The claim: when the single child of a Not predicate compiles to a fragment \<open>F\<close>
  with arguments \<open>A\<close>, the Not predicate compiles to \<open>NOT (F)\<close> with the same \<open>A\<close>.
  \<^verbatim>\<open>NotSqlizer.ToSql\<close> tests \<^verbatim>\<open>err != nil\<close> before it wraps, so it wraps the text of a
  child that failed and returns the text of a child that compiled as it is. The theorem
  runs the code on \<open>NOT (a = 1)\<close> in the session \<open>noteSession\<close>: the factory builds a
  \<open>NotSqlizer\<close> over the comparison, the comparison compiles to \<open>"note"."a"=?\<close> with the
  argument 1, and the \<open>NotSqlizer\<close> returns that same text, without \<open>NOT (...)\<close>.
\<close>

theorem not_of_compiled_child_is_unwrapped:
  "newPredicateSqlizer noteSession
     (Predicate Not_op
        [PredicateChild
           (Predicate Equal [ExpressionChild (Expression KeyPath (VString ''a'')),
                             ExpressionChild (Expression Literal (VInt 1))])])
     = Returns (Inr (NotSqlizer (comparisonPredicateSqlizer ''note''
                  (Predicate Equal [ExpressionChild (Expression KeyPath (VString ''a'')),
                                    ExpressionChild (Expression Literal (VInt 1))]))),
                noteSession)
   \<and> ToSql (comparisonPredicateSqlizer ''note''
              (Predicate Equal [ExpressionChild (Expression KeyPath (VString ''a'')),
                                ExpressionChild (Expression Literal (VInt 1))]))
     = Returns (''\"note\".\"a\"=?'', [VInt 1], None)
   \<and> ToSql (NotSqlizer (comparisonPredicateSqlizer ''note''
              (Predicate Equal [ExpressionChild (Expression KeyPath (VString ''a'')),
                                ExpressionChild (Expression Literal (VInt 1))])))
     = Returns (''\"note\".\"a\"=?'', [VInt 1], None)"
  by (simp add: noteSession_def newPredicateSqlizerFactory_def IsEmpty_def
      comparisonPredicateSqlizer_ToSql_def childExpression_def fullQuoteIdentifier_def
      QuoteIdentifier_def Placeholders_def)

subsection \<open>C2: placeholders and bind arguments of a supported tree\<close>

text \<open>
  C2, as stated, fails: a key path is written into the text inside double quotes, and a
  question mark in it is one more \<open>?\<close> of the fragment with no argument behind it. The
  comparison \<open>a? = 1\<close> compiles to \<open>"note"."a?"=?\<close>, two question marks, with the one
  argument 1.
\<close>

theorem key_path_question_mark_counterexample:
  "newPredicateSqlizer noteSession
     (Predicate Equal [ExpressionChild (Expression KeyPath (VString ''a?'')),
                       ExpressionChild (Expression Literal (VInt 1))])
     = Returns (Inr (comparisonPredicateSqlizer ''note''
                  (Predicate Equal [ExpressionChild (Expression KeyPath (VString ''a?'')),
                                    ExpressionChild (Expression Literal (VInt 1))])),
                noteSession)
   \<and> ToSql (comparisonPredicateSqlizer ''note''
              (Predicate Equal [ExpressionChild (Expression KeyPath (VString ''a?'')),
                                ExpressionChild (Expression Literal (VInt 1))]))
     = Returns (''\"note\".\"a?\"=?'', [VInt 1], None)
   \<and> placeholderCount ''\"note\".\"a?\"=?'' = 2
   \<and> length [VInt 1] = 1"
  by (simp add: noteSession_def newPredicateSqlizerFactory_def IsEmpty_def
      comparisonPredicateSqlizer_ToSql_def childExpression_def fullQuoteIdentifier_def
      QuoteIdentifier_def Placeholders_def)

text \<open>
  C2, amended. For every predicate tree of the data model built from the supported
  operators (\<open>supported\<close>: And, Or, Not, the eight binary comparisons, In over a key path
  and a literal in either order; function expressions of the kinds the expression
  compiler knows), in which no key path, distance field or user-data name holds a
  question mark, and for every session whose primary table name holds none: the factory
  returns a sqlizer and no error, without a panic and with the session unchanged;
  \<open>ToSql\<close> of that sqlizer returns a fragment, arguments and a nil error; and the number
  of \<open>?\<close> in the fragment is the length of the argument list. All functions of the model
  are total, so the compilation terminates.
\<close>

theorem supported_predicate_placeholders:
  assumes "supported p" and "CHR ''?'' \<notin> set (primaryTable f)"
  shows "\<exists>s sql args. newPredicateSqlizer f p = Returns (Inr s, f)
           \<and> ToSql s = Returns (sql, args, None) \<and> placeholderCount sql = length args"
  using assms by (rule supported_compiles)

theorem supported_predicate_placeholders_witness:
  "supported
     (Predicate And
        [PredicateChild
           (Predicate Equal [ExpressionChild (Expression KeyPath (VString ''title'')),
                             ExpressionChild (Expression Literal (VString ''x''))]),
         PredicateChild
           (Predicate In_op [ExpressionChild (Expression KeyPath (VString ''tag'')),
                             ExpressionChild (Expression Literal
                               (VArray [VString ''a'', VReference ''tag'' ''k'']))])])
   \<and> CHR ''?'' \<notin> set (primaryTable noteSession)
   \<and> (\<exists>s sql args.
         newPredicateSqlizer noteSession
           (Predicate And
              [PredicateChild
                 (Predicate Equal [ExpressionChild (Expression KeyPath (VString ''title'')),
                                   ExpressionChild (Expression Literal (VString ''x''))]),
               PredicateChild
                 (Predicate In_op [ExpressionChild (Expression KeyPath (VString ''tag'')),
                                   ExpressionChild (Expression Literal
                                     (VArray [VString ''a'', VReference ''tag'' ''k'']))])])
           = Returns (Inr s, noteSession)
         \<and> ToSql s = Returns (sql, args, None) \<and> placeholderCount sql = length args)"
proof -
  have p: "supported
     (Predicate And
        [PredicateChild
           (Predicate Equal [ExpressionChild (Expression KeyPath (VString ''title'')),
                             ExpressionChild (Expression Literal (VString ''x''))]),
         PredicateChild
           (Predicate In_op [ExpressionChild (Expression KeyPath (VString ''tag'')),
                             ExpressionChild (Expression Literal
                               (VArray [VString ''a'', VReference ''tag'' ''k'']))])])"
    by simp
  have f: "CHR ''?'' \<notin> set (primaryTable noteSession)"
    by (simp add: noteSession_def newPredicateSqlizerFactory_def)
  from supported_predicate_placeholders [OF p f] p f show ?thesis
    by (intro conjI)
qed

lemma supported_example_text:
  "ToSql (And_sq
     [comparisonPredicateSqlizer ''note''
        (Predicate Equal [ExpressionChild (Expression KeyPath (VString ''title'')),
                          ExpressionChild (Expression Literal (VString ''x''))]),
      containsComparisonPredicateSqlizer ''note''
        (Predicate In_op [ExpressionChild (Expression KeyPath (VString ''tag'')),
                          ExpressionChild (Expression Literal
                            (VArray [VString ''a'', VReference ''tag'' ''k'']))])])
   = Returns (''(\"note\".\"title\"=? AND \"note\".\"tag\" IN (?,?))'',
              [VString ''x'', VString ''a'', VString ''k''], None)"
  by (simp add: comparisonPredicateSqlizer_ToSql_def containsComparisonPredicateSqlizer_ToSql_def
      childExpression_def fullQuoteIdentifier_def QuoteIdentifier_def Placeholders_def)

subsection \<open>C3: caller-supplied strings and the SQL text\<close>

text \<open>
  C3, as stated, fails: the access-control fragment is built by writing the user id
  and every role name, JSON-encoded, into the SQL text. Two users who differ in a role
  name only get two different texts, and the same argument list.
\<close>

theorem role_name_in_sql_text_counterexample:
  "accessPredicateSqlizer_ToSql
     \<lparr>databaseID = ''app'', user = \<lparr>ID = ''alice'', Roles = [''admin'']\<rparr>, level = ReadLevel\<rparr>
     = Returns (''(_access @> '[{\"role\":\"admin\"}]' OR _access @> '[{\"user_id\":\"alice\"}]' OR _access IS NULL OR _owner_id = ?)'',
                [VString ''alice''], None)
   \<and> accessPredicateSqlizer_ToSql
     \<lparr>databaseID = ''app'', user = \<lparr>ID = ''alice'', Roles = [''guest'']\<rparr>, level = ReadLevel\<rparr>
     = Returns (''(_access @> '[{\"role\":\"guest\"}]' OR _access @> '[{\"user_id\":\"alice\"}]' OR _access IS NULL OR _owner_id = ?)'',
                [VString ''alice''], None)"
  by (simp add: accessPredicateSqlizer_ToSql_def jsonMarshal_def jsonEscapeASCII_def)

text \<open>
  C3, amended. The values a query supplies reach the bind arguments only: compiling a
  predicate gives the same panic, or the same text, error and session, as compiling
  it with every literal replaced by a value of its shape (\<open>erasePredicate\<close>: a scalar,
  or an array of the same length), the user of a \<open>UserRelationFunc\<close> by the empty
  string and the e-mail addresses of a \<open>UserDiscoverFunc\<close> by as many empty strings;
  the text of a literal is \<open>?\<close> for a scalar, \<open>(NULL)\<close> for an empty array and a
  parenthesised list of placeholders as long as the array otherwise. The user id and
  the role names are, by design, written into the text of the access-control fragment
  as JSON strings, one containment test per role and one for the user id; the user id
  is also the one bind argument, for the ownership test. This part is stated for a
  database id that is not empty and for a user id and role names that hold no single
  quote; nothing is said about the fragment outside these conditions.
\<close>

theorem caller_strings_in_text_and_arguments:
  "compiledText f (erasePredicate p) = compiledText f p
   \<and> fst (literalToSQLOperand v)
       = (case v of
            VArray xs \<Rightarrow> if xs = [] then ''(NULL)'' else ''('' @ Placeholders (length xs) @ '')''
          | _ \<Rightarrow> ''?'')
   \<and> (d \<noteq> [] \<and> ID u \<noteq> [] \<and> CHR 0x27 \<notin> set (ID u)
        \<and> (\<forall>role \<in> set (Roles u). CHR 0x27 \<notin> set role) \<longrightarrow>
        accessPredicateSqlizer_ToSql \<lparr>databaseID = d, user = u, level = l\<rparr>
          = Returns (''('' @ concat (map (\<lambda>role. ''_access @> '[{\"role\":'' @ fst (jsonMarshal role) @ ''}]' OR '')
                                      (Roles u))
                       @ ''_access @> '[{\"user_id\":'' @ fst (jsonMarshal (ID u))
                       @ ''}]' OR _access IS NULL OR _owner_id = ?)'',
                     [VString (ID u)], None))"
proof -
  have "fst (literalToSQLOperand v)
     = (case v of
          VArray xs \<Rightarrow> if xs = [] then ''(NULL)'' else ''('' @ Placeholders (length xs) @ '')''
        | _ \<Rightarrow> ''?'')"
    by (cases v) (simp_all add: Placeholders_def)
  then show ?thesis
    by (simp add: accessPredicateSqlizer_ToSql_eq compiledText_erase)
qed

lemma compiledText_example:
  "compiledText noteSession
     (Predicate Equal [ExpressionChild (Expression KeyPath (VString ''title'')),
                       ExpressionChild (Expression Literal VNil)])
     = Returns (''\"note\".\"title\"=?'', None, noteSession)"
  by (simp add: compiledText_def textOf_def noteSession_def newPredicateSqlizerFactory_def
      IsEmpty_def comparisonPredicateSqlizer_ToSql_def childExpression_def fullQuoteIdentifier_def
      QuoteIdentifier_def Placeholders_def)

theorem caller_strings_in_text_and_arguments_witness:
  "''app'' \<noteq> []
   \<and> ID \<lparr>ID = ''bob'', Roles = [''editor'', ''writer'']\<rparr> \<noteq> []
   \<and> CHR 0x27 \<notin> set (ID \<lparr>ID = ''bob'', Roles = [''editor'', ''writer'']\<rparr>)
   \<and> CHR 0x27 \<notin> set ''editor'' \<and> CHR 0x27 \<notin> set ''writer''
   \<and> accessPredicateSqlizer_ToSql
       \<lparr>databaseID = ''app'', user = \<lparr>ID = ''bob'', Roles = [''editor'', ''writer'']\<rparr>,
        level = WriteLevel\<rparr>
     = Returns (''(_access @> '[{\"role\":\"editor\"}]' OR _access @> '[{\"role\":\"writer\"}]' OR _access @> '[{\"user_id\":\"bob\"}]' OR _access IS NULL OR _owner_id = ?)'',
                [VString ''bob''], None)
   \<and> compiledText noteSession
       (Predicate Equal [ExpressionChild (Expression KeyPath (VString ''title'')),
                         ExpressionChild (Expression Literal (VString ''it's''))])
     = Returns (''\"note\".\"title\"=?'', None, noteSession)"
proof -
  have hyps: "''app'' \<noteq> [] \<and> ID \<lparr>ID = ''bob'', Roles = [''editor'', ''writer'']\<rparr> \<noteq> []
      \<and> CHR 0x27 \<notin> set (ID \<lparr>ID = ''bob'', Roles = [''editor'', ''writer'']\<rparr>)
      \<and> (\<forall>role \<in> set (Roles \<lparr>ID = ''bob'', Roles = [''editor'', ''writer'']\<rparr>).
            CHR 0x27 \<notin> set role)"
    by simp
  from caller_strings_in_text_and_arguments
      [where u = "\<lparr>ID = ''bob'', Roles = [''editor'', ''writer'']\<rparr>" and d = "''app''"
         and l = WriteLevel and f = noteSession
         and p = "Predicate Equal [ExpressionChild (Expression KeyPath (VString ''title'')),
                                   ExpressionChild (Expression Literal (VString ''it's''))]"]
    hyps compiledText_example
  show ?thesis
    by (simp add: jsonMarshal_def jsonEscapeASCII_def)
qed

subsection \<open>C4: one alias per join specification\<close>

text \<open>
  C4, as stated, fails in its second half: every join on the table \<open>_user\<close> gets the
  alias \<open>_user\<close>, so two specifications on \<open>_user\<close> that differ in a column share it.
\<close>

theorem user_table_alias_counterexample:
  "createLeftJoin noteSession ''_user'' ''_id'' ''id''
     = (''_user'',
        noteSession\<lparr>joinedTables :=
          [\<lparr>secondaryTable = ''_user'', primaryColumn = ''_id'', secondaryColumn = ''id''\<rparr>]\<rparr>)
   \<and> createLeftJoin
       (noteSession\<lparr>joinedTables :=
          [\<lparr>secondaryTable = ''_user'', primaryColumn = ''_id'', secondaryColumn = ''id''\<rparr>]\<rparr>)
       ''_user'' ''_owner_id'' ''id''
     = (''_user'',
        noteSession\<lparr>joinedTables :=
          [\<lparr>secondaryTable = ''_user'', primaryColumn = ''_id'', secondaryColumn = ''id''\<rparr>,
           \<lparr>secondaryTable = ''_user'', primaryColumn = ''_owner_id'', secondaryColumn = ''id''\<rparr>]\<rparr>)"
  by (simp add: createLeftJoin_def noteSession_def newPredicateSqlizerFactory_def
      aliasName_def equal_jt_def)

text \<open>
  C4, amended. A first request returns the alias \<open>a\<close> and leaves the session \<open>f1\<close>. In
  every later state \<open>f2\<close> of the session (its join list extends that of \<open>f1\<close>; the list
  is only ever appended to), a request with the same three fields returns \<open>a\<close> again
  and leaves \<open>f2\<close> as it is, so the join list does not grow; a request that differs in at
  least one field returns an alias other than \<open>a\<close>, unless both requests are on the table
  \<open>_user\<close>.
\<close>

theorem createLeftJoin_aliases:
  assumes first: "createLeftJoin f t pc sc = (a, f1)"
    and later: "joinedTables f2 = joinedTables f1 @ later"
    and second: "createLeftJoin f2 t' pc' sc' = (a', f3)"
  shows "((t', pc', sc') = (t, pc, sc) \<longrightarrow> a' = a \<and> f3 = f2) \<and>
         ((t', pc', sc') \<noteq> (t, pc, sc) \<and> \<not> (t = ''_user'' \<and> t' = ''_user'') \<longrightarrow> a' \<noteq> a)"
proof -
  let ?spec = "\<lparr>secondaryTable = t, primaryColumn = pc, secondaryColumn = sc\<rparr>"
  let ?spec' = "\<lparr>secondaryTable = t', primaryColumn = pc', secondaryColumn = sc'\<rparr>"
  from createLeftJoin_index [OF first] obtain i where
    i: "findJoin ?spec (joinedTables f1) 0 = Some i" and a: "a = aliasName t i"
    by blast
  from i later have i2: "findJoin ?spec (joinedTables f2) 0 = Some i"
    by (simp add: findJoin_extend)
  have same: "a' = a \<and> f3 = f2" if "(t', pc', sc') = (t, pc, sc)"
    using that second createLeftJoin_found [OF i2] a by simp
  have differ: "a' \<noteq> a"
    if ne: "(t', pc', sc') \<noteq> (t, pc, sc)" and user: "\<not> (t = ''_user'' \<and> t' = ''_user'')"
  proof
    assume eq: "a' = a"
    from createLeftJoin_index [OF second] obtain j more where
      j: "findJoin ?spec' (joinedTables f3) 0 = Some j" and a': "a' = aliasName t' j"
      and f3: "joinedTables f3 = joinedTables f2 @ more"
      by blast
    from i2 f3 have i3: "findJoin ?spec (joinedTables f3) 0 = Some i"
      by (simp add: findJoin_extend)
    from eq a a' user have "i = j"
      by (auto dest: aliasName_inj)
    with findJoin_Some [OF i3] findJoin_Some [OF j] have "?spec = ?spec'"
      by simp
    with ne show False
      by simp
  qed
  from same differ show ?thesis
    by blast
qed

lemma noteSession_first_join:
  "createLeftJoin noteSession ''follow'' ''_owner_id'' ''right_id''
     = (''_t0'',
        noteSession\<lparr>joinedTables :=
          [\<lparr>secondaryTable = ''follow'', primaryColumn = ''_owner_id'', secondaryColumn = ''right_id''\<rparr>]\<rparr>)"
  by (simp add: createLeftJoin_def noteSession_def newPredicateSqlizerFactory_def
      aliasName_def formatNat.simps digitChar_def)

lemma noteSession_same_join:
  "createLeftJoin
     (noteSession\<lparr>joinedTables :=
        [\<lparr>secondaryTable = ''follow'', primaryColumn = ''_owner_id'', secondaryColumn = ''right_id''\<rparr>]\<rparr>)
     ''follow'' ''_owner_id'' ''right_id''
     = (''_t0'',
        noteSession\<lparr>joinedTables :=
          [\<lparr>secondaryTable = ''follow'', primaryColumn = ''_owner_id'', secondaryColumn = ''right_id''\<rparr>]\<rparr>)"
  by (simp add: createLeftJoin_def noteSession_def newPredicateSqlizerFactory_def
      aliasName_def equal_jt_def formatNat.simps digitChar_def)

lemma noteSession_other_join:
  "createLeftJoin
     (noteSession\<lparr>joinedTables :=
        [\<lparr>secondaryTable = ''follow'', primaryColumn = ''_owner_id'', secondaryColumn = ''right_id''\<rparr>]\<rparr>)
     ''follow'' ''_owner_id'' ''left_id''
     = (''_t1'',
        noteSession\<lparr>joinedTables :=
          [\<lparr>secondaryTable = ''follow'', primaryColumn = ''_owner_id'', secondaryColumn = ''right_id''\<rparr>,
           \<lparr>secondaryTable = ''follow'', primaryColumn = ''_owner_id'', secondaryColumn = ''left_id''\<rparr>]\<rparr>)"
  by (simp add: createLeftJoin_def noteSession_def newPredicateSqlizerFactory_def
      aliasName_def equal_jt_def formatNat.simps digitChar_def)

theorem createLeftJoin_aliases_witness:
  "createLeftJoin noteSession ''follow'' ''_owner_id'' ''right_id''
     = (''_t0'',
        noteSession\<lparr>joinedTables :=
          [\<lparr>secondaryTable = ''follow'', primaryColumn = ''_owner_id'', secondaryColumn = ''right_id''\<rparr>]\<rparr>)
   \<and> createLeftJoin
       (noteSession\<lparr>joinedTables :=
          [\<lparr>secondaryTable = ''follow'', primaryColumn = ''_owner_id'', secondaryColumn = ''right_id''\<rparr>]\<rparr>)
       ''follow'' ''_owner_id'' ''right_id''
     = (''_t0'',
        noteSession\<lparr>joinedTables :=
          [\<lparr>secondaryTable = ''follow'', primaryColumn = ''_owner_id'', secondaryColumn = ''right_id''\<rparr>]\<rparr>)
   \<and> createLeftJoin
       (noteSession\<lparr>joinedTables :=
          [\<lparr>secondaryTable = ''follow'', primaryColumn = ''_owner_id'', secondaryColumn = ''right_id''\<rparr>]\<rparr>)
       ''follow'' ''_owner_id'' ''left_id''
     = (''_t1'',
        noteSession\<lparr>joinedTables :=
          [\<lparr>secondaryTable = ''follow'', primaryColumn = ''_owner_id'', secondaryColumn = ''right_id''\<rparr>,
           \<lparr>secondaryTable = ''follow'', primaryColumn = ''_owner_id'', secondaryColumn = ''left_id''\<rparr>]\<rparr>)
   \<and> ''_t1'' \<noteq> ''_t0''"
proof -
  have ext: "joinedTables (noteSession\<lparr>joinedTables :=
          [\<lparr>secondaryTable = ''follow'', primaryColumn = ''_owner_id'', secondaryColumn = ''right_id''\<rparr>]\<rparr>)
      = joinedTables (noteSession\<lparr>joinedTables :=
          [\<lparr>secondaryTable = ''follow'', primaryColumn = ''_owner_id'', secondaryColumn = ''right_id''\<rparr>]\<rparr>) @ []"
    by simp
  from createLeftJoin_aliases [OF noteSession_first_join ext noteSession_same_join]
    createLeftJoin_aliases [OF noteSession_first_join ext noteSession_other_join]
    noteSession_first_join noteSession_same_join noteSession_other_join
  show ?thesis
    by simp
qed

subsection \<open>C5: the alias of a join\<close>

text \<open>
  C5. Whatever the session holds already, a request for a join on the table \<open>_user\<close>
  returns the alias \<open>_user\<close>, and a request on any other table returns \<open>_t\<close> followed by
  the decimal index \<open>i\<close> of the specification in the join list the request leaves: the
  entry at \<open>i\<close> is the requested specification, and no earlier entry is.
\<close>

theorem createLeftJoin_alias_name:
  assumes "createLeftJoin f t pc sc = (a, f')"
  shows "(t = ''_user'' \<longrightarrow> a = ''_user'') \<and>
         (t \<noteq> ''_user'' \<longrightarrow>
            (\<exists>i < length (joinedTables f').
               joinedTables f' ! i = \<lparr>secondaryTable = t, primaryColumn = pc, secondaryColumn = sc\<rparr>
               \<and> (\<forall>j < i. joinedTables f' ! j \<noteq> \<lparr>secondaryTable = t, primaryColumn = pc, secondaryColumn = sc\<rparr>)
               \<and> a = ''_t'' @ formatNat i))"
proof -
  from createLeftJoin_index [OF assms] obtain i where
    i: "findJoin \<lparr>secondaryTable = t, primaryColumn = pc, secondaryColumn = sc\<rparr> (joinedTables f') 0 = Some i"
    and a: "a = aliasName t i"
    by blast
  from findJoin_Some [OF i] a show ?thesis
    by (auto simp: aliasName_def)
qed

lemma two_joins_then_user:
  "createLeftJoin
     (noteSession\<lparr>joinedTables :=
        [\<lparr>secondaryTable = ''follow'', primaryColumn = ''_owner_id'', secondaryColumn = ''right_id''\<rparr>,
         \<lparr>secondaryTable = ''follow'', primaryColumn = ''_owner_id'', secondaryColumn = ''left_id''\<rparr>]\<rparr>)
     ''_user'' ''_id'' ''id''
     = (''_user'',
        noteSession\<lparr>joinedTables :=
          [\<lparr>secondaryTable = ''follow'', primaryColumn = ''_owner_id'', secondaryColumn = ''right_id''\<rparr>,
           \<lparr>secondaryTable = ''follow'', primaryColumn = ''_owner_id'', secondaryColumn = ''left_id''\<rparr>,
           \<lparr>secondaryTable = ''_user'', primaryColumn = ''_id'', secondaryColumn = ''id''\<rparr>]\<rparr>)"
  by (simp add: createLeftJoin_def noteSession_def newPredicateSqlizerFactory_def
      aliasName_def equal_jt_def)

lemma two_joins_then_friend:
  "createLeftJoin
     (noteSession\<lparr>joinedTables :=
        [\<lparr>secondaryTable = ''follow'', primaryColumn = ''_owner_id'', secondaryColumn = ''right_id''\<rparr>,
         \<lparr>secondaryTable = ''follow'', primaryColumn = ''_owner_id'', secondaryColumn = ''left_id''\<rparr>]\<rparr>)
     ''friend'' ''_owner_id'' ''right_id''
     = (''_t2'',
        noteSession\<lparr>joinedTables :=
          [\<lparr>secondaryTable = ''follow'', primaryColumn = ''_owner_id'', secondaryColumn = ''right_id''\<rparr>,
           \<lparr>secondaryTable = ''follow'', primaryColumn = ''_owner_id'', secondaryColumn = ''left_id''\<rparr>,
           \<lparr>secondaryTable = ''friend'', primaryColumn = ''_owner_id'', secondaryColumn = ''right_id''\<rparr>]\<rparr>)"
  by (simp add: createLeftJoin_def noteSession_def newPredicateSqlizerFactory_def
      aliasName_def equal_jt_def formatNat.simps digitChar_def)

theorem createLeftJoin_alias_name_witness:
  "fst (createLeftJoin
     (noteSession\<lparr>joinedTables :=
        [\<lparr>secondaryTable = ''follow'', primaryColumn = ''_owner_id'', secondaryColumn = ''right_id''\<rparr>,
         \<lparr>secondaryTable = ''follow'', primaryColumn = ''_owner_id'', secondaryColumn = ''left_id''\<rparr>]\<rparr>)
     ''_user'' ''_id'' ''id'') = ''_user''
   \<and> fst (createLeftJoin
     (noteSession\<lparr>joinedTables :=
        [\<lparr>secondaryTable = ''follow'', primaryColumn = ''_owner_id'', secondaryColumn = ''right_id''\<rparr>,
         \<lparr>secondaryTable = ''follow'', primaryColumn = ''_owner_id'', secondaryColumn = ''left_id''\<rparr>]\<rparr>)
     ''friend'' ''_owner_id'' ''right_id'') = ''_t'' @ formatNat 2
   \<and> joinedTables (snd (createLeftJoin
     (noteSession\<lparr>joinedTables :=
        [\<lparr>secondaryTable = ''follow'', primaryColumn = ''_owner_id'', secondaryColumn = ''right_id''\<rparr>,
         \<lparr>secondaryTable = ''follow'', primaryColumn = ''_owner_id'', secondaryColumn = ''left_id''\<rparr>]\<rparr>)
     ''friend'' ''_owner_id'' ''right_id'')) ! 2
       = \<lparr>secondaryTable = ''friend'', primaryColumn = ''_owner_id'', secondaryColumn = ''right_id''\<rparr>"
  using createLeftJoin_alias_name [OF two_joins_then_user]
    createLeftJoin_alias_name [OF two_joins_then_friend]
    two_joins_then_user two_joins_then_friend
  by (simp add: formatNat.simps digitChar_def)

subsection \<open>C6: the access-control fragment of an empty database id\<close>

text \<open>
  C6. The claim: with an empty database id the access-control builder returns
  the empty fragment and no argument, whoever the user is.
  \<^verbatim>\<open>accessPredicateSqlizer.ToSql\<close> tests the database id and assigns the empty string to
  \<open>sql\<close>, but does not return there; the test of the user id that follows overwrites
  it. The theorem runs the code on the empty database id and the user \<open>alice\<close> with no
  role: the fragment is the full disjunction, with one argument.
\<close>

theorem empty_database_id_fragment:
  "newAccessControlSqlizer
     (newPredicateSqlizerFactory \<lparr>DatabaseID = [], UserRecordType = ''user''\<rparr> ''note'')
     \<lparr>ID = ''alice'', Roles = []\<rparr> ReadLevel
     = (\<lparr>databaseID = [], user = \<lparr>ID = ''alice'', Roles = []\<rparr>, level = ReadLevel\<rparr>, None)
   \<and> accessPredicateSqlizer_ToSql
       \<lparr>databaseID = [], user = \<lparr>ID = ''alice'', Roles = []\<rparr>, level = ReadLevel\<rparr>
     = Returns (''(_access @> '[{\"user_id\":\"alice\"}]' OR _access IS NULL OR _owner_id = ?)'',
                [VString ''alice''], None)"
  by (simp add: newAccessControlSqlizer_def newPredicateSqlizerFactory_def
      accessPredicateSqlizer_ToSql_def jsonMarshal_def jsonEscapeASCII_def)

subsection \<open>C7: array literals\<close>

text \<open>
  C7. An array literal with the elements \<open>x # xs\<close>, of length \<open>N = Suc (length xs)\<close>,
  compiles to \<open>N\<close> question marks separated by commas and put in parentheses, with \<open>N\<close>
  bind arguments: the elements in their order, a reference replaced by its key and
  every other value kept. The empty array literal compiles to \<open>(NULL)\<close> with no argument.
\<close>

theorem array_literal_placeholders:
  "expressionSqlizer_ToSql alias (Expression Literal (VArray [])) = Returns (''(NULL)'', [], None)
   \<and> expressionSqlizer_ToSql alias (Expression Literal (VArray (x # xs)))
       = Returns (''('' @ joinStrings (replicate (Suc (length xs)) ''?'') '','' @ '')'',
                  map (\<lambda>v. case v of VReference t k \<Rightarrow> VString k | _ \<Rightarrow> v) (x # xs), None)
   \<and> placeholderCount (''('' @ joinStrings (replicate (Suc (length xs)) ''?'') '','' @ '')'')
       = Suc (length xs)"
proof -
  have "literalToSQLValue = (\<lambda>v. case v of VReference t k \<Rightarrow> VString k | _ \<Rightarrow> v)"
    by (rule ext) (rule literalToSQLValue_eq)
  then have "map literalToSQLValue (x # xs)
          = map (\<lambda>v. case v of VReference t k \<Rightarrow> VString k | _ \<Rightarrow> v) (x # xs)"
    by (simp only:)
  moreover have "placeholderCount (joinStrings (replicate (Suc (length xs)) ''?'') '','') = Suc (length xs)"
    by (simp add: joinStrings_placeholders placeholderCount_repeat
        del: joinStrings.simps replicate.simps)
  ultimately show ?thesis
    by (simp add: Placeholders_Suc del: joinStrings.simps replicate.simps)
qed

subsection \<open>C8: user discovery outside the user record type\<close>

text \<open>
  C8. In a session whose primary table is not the user record type, a functional
  predicate over a \<open>UserDiscoverFunc\<close> returns the error "user discover predicate can only
  be used on user record" (\<open>UserDiscoverOnlyOnUserRecord\<close>, the spec's InvalidContext)
  and the session as it was: no join is requested and no transient column registered.
  The same holds for a direct call of the constructor.
\<close>

theorem user_discover_outside_user_record:
  assumes "UserRecordType (db f) \<noteq> primaryTable f"
  shows "newPredicateSqlizer f
           (Predicate Functional
              (ExpressionChild (Expression Function (VFunc (UserDiscoverFunc emails))) # rest))
         = Returns (Inl UserDiscoverOnlyOnUserRecord, f)
       \<and> newUserDiscoverFunctionalPredicateSqlizer f (UserDiscoverFunc emails)
         = Returns (Inl UserDiscoverOnlyOnUserRecord, f)"
  using assms
  by (simp add: IsEmpty_def newFunctionalPredicateSqlizer_def childExpression_def
      newUserDiscoverFunctionalPredicateSqlizer_def)

theorem user_discover_outside_user_record_witness:
  "UserRecordType (db noteSession)
     \<noteq> primaryTable noteSession
   \<and> newPredicateSqlizer noteSession
        (Predicate Functional
           [ExpressionChild (Expression Function (VFunc (UserDiscoverFunc [''john@example.com''])))])
      = Returns (Inl UserDiscoverOnlyOnUserRecord,
                noteSession)
   \<and> joinedTables noteSession = [] \<and> extraColumns noteSession = Map.empty"
proof -
  have h: "UserRecordType (db noteSession)
     \<noteq> primaryTable noteSession"
    by (simp add: noteSession_def newPredicateSqlizerFactory_def)
  from user_discover_outside_user_record [OF h, of "[''john@example.com'']" "[]"] h show ?thesis
    by (simp add: noteSession_def newPredicateSqlizerFactory_def)
qed

subsection \<open>C9: sorting by distance\<close>

text \<open>
  C9, as stated, fails: the fragment holds the quoted field name, so a question mark
  in the field name is a \<open>?\<close> of the fragment.
\<close>

theorem distance_sort_question_mark_counterexample:
  "sortOrderBySQL ''note''
     \<lparr>SortKeyPath = [],
      SortFunc = Some (DistanceFunc ''loc?'' (Location 0x405C8CCCCCCCCCCD 0x40364A3D70A3D70A)),
      Order = Asc\<rparr>
     = Some (''ST_Distance_Sphere(\"note\".\"loc?\", ST_MakePoint(114.200000, 22.290000)) ASC'', None)
   \<and> placeholderCount
        ''ST_Distance_Sphere(\"note\".\"loc?\", ST_MakePoint(114.200000, 22.290000)) ASC'' = 1"
  by (simp add: sortOrderBySQL_def funcOrderBySQL_def sortOrderOrderBySQL_def Sprintf_format_def
      fullQuoteIdentifier_def QuoteIdentifier_def Sprintf_f_114_2 Sprintf_f_22_29)

lemma not_in_Sprintf_f:
  assumes "c = CHR ''?'' \<or> c = CHR ''%''"
  shows "c \<notin> set (Sprintf_f w)"
proof -
  from assms have "c \<notin> set ''0123456789.-+NaInf''"
    by auto
  with set_Sprintf_f [of w] show ?thesis
    by blast
qed

lemma not_in_fullQuoteIdentifier:
  assumes "c = CHR ''?'' \<or> c = CHR ''%''" and "c \<notin> set a" and "c \<notin> set field"
  shows "c \<notin> set (fullQuoteIdentifier a field)"
proof -
  from assms have "c \<notin> {CHR 0x22, CHR ''.''} \<union> set a \<union> set field"
    by auto
  with set_fullQuoteIdentifier [of a field] show ?thesis
    by blast
qed

lemma not_in_distance_text:
  assumes c: "c = CHR ''?'' \<or> c = CHR ''%''" and a: "c \<notin> set a" and field: "c \<notin> set field"
    and ord: "ord = ''ASC'' \<or> ord = ''DESC''"
  shows "c \<notin> set (''ST_Distance_Sphere('' @ fullQuoteIdentifier a field @ '', ST_MakePoint(''
                     @ Sprintf_f lng @ '', '' @ Sprintf_f lat @ ''))'' @ '' '' @ ord)"
  using not_in_fullQuoteIdentifier [OF c a field] not_in_Sprintf_f [OF c, of lng]
    not_in_Sprintf_f [OF c, of lat] c ord
  by auto

text \<open>
  C9, amended. For a sort with no key path, a \<open>DistanceFunc\<close> and the order \<open>Asc\<close> or
  \<open>Desc\<close>, where neither the table alias nor the field name holds a question mark or a
  percent sign, \<^verbatim>\<open>sortOrderBySQL\<close> returns no error and the fragment
  \<open>ST_Distance_Sphere(<alias>.<field>, ST_MakePoint(<lng>, <lat>)) <order>\<close>, in which
  longitude and latitude are the texts \<open>%f\<close> prints for them; the fragment holds no
  question mark. The function returns a text and an error only, so there is no bind
  argument.
\<close>

theorem distance_sort_fragment:
  assumes "SortKeyPath srt = []"
    and "SortFunc srt = Some (DistanceFunc field loc)"
    and "Order srt = Asc \<or> Order srt = Desc"
    and "CHR ''?'' \<notin> set a" and "CHR ''?'' \<notin> set field"
    and "CHR ''%'' \<notin> set a" and "CHR ''%'' \<notin> set field"
  shows "sortOrderBySQL a srt
           = Some (''ST_Distance_Sphere('' @ fullQuoteIdentifier a field @ '', ST_MakePoint(''
                     @ Sprintf_f (Lng loc) @ '', '' @ Sprintf_f (Lat loc) @ '')) ''
                     @ (if Order srt = Asc then ''ASC'' else ''DESC''), None)
         \<and> placeholderCount
             (''ST_Distance_Sphere('' @ fullQuoteIdentifier a field @ '', ST_MakePoint(''
                @ Sprintf_f (Lng loc) @ '', '' @ Sprintf_f (Lat loc) @ '')) ''
                @ (if Order srt = Asc then ''ASC'' else ''DESC'')) = 0"
proof -
  let ?ord = "if Order srt = Asc then ''ASC'' else ''DESC''"
  let ?text = "''ST_Distance_Sphere('' @ fullQuoteIdentifier a field @ '', ST_MakePoint(''
                 @ Sprintf_f (Lng loc) @ '', '' @ Sprintf_f (Lat loc) @ ''))'' @ '' '' @ ?ord"
  have ord: "?ord = ''ASC'' \<or> ?ord = ''DESC''"
    by simp
  have pct: "CHR ''%'' \<notin> set ?text"
    by (rule not_in_distance_text [OF _ assms(6,7) ord]) simp
  have qm: "CHR ''?'' \<notin> set ?text"
    by (rule not_in_distance_text [OF _ assms(4,5) ord]) simp
  from pct have fmt: "Sprintf_format ?text = Some ?text"
    by (simp only: Sprintf_format_def if_False)
  have order: "sortOrderOrderBySQL (Order srt) = (?ord, None)"
    using assms(3) by (auto simp: sortOrderOrderBySQL_def)
  have "sortOrderBySQL a srt = Some (?text, None)"
    unfolding sortOrderBySQL_def funcOrderBySQL_def Let_def
    by (simp only: assms(1,2) order fmt option.case func.case prod.case
        if_False refl not_True_eq_False simp_thms append_assoc)
  moreover from qm have "placeholderCount ?text = 0"
    by (rule placeholderCount_none)
  ultimately show ?thesis
    by (simp only: append_assoc append_Cons append_Nil)
qed

theorem distance_sort_fragment_witness:
  "sortOrderBySQL ''note''
     \<lparr>SortKeyPath = [],
      SortFunc = Some (DistanceFunc ''location'' (Location 0x405C8CCCCCCCCCCD 0x40364A3D70A3D70A)),
      Order = Desc\<rparr>
     = Some (''ST_Distance_Sphere(\"note\".\"location\", ST_MakePoint(114.200000, 22.290000)) DESC'',
             None)
   \<and> placeholderCount
        ''ST_Distance_Sphere(\"note\".\"location\", ST_MakePoint(114.200000, 22.290000)) DESC'' = 0"
  using distance_sort_fragment
    [of "\<lparr>SortKeyPath = [],
          SortFunc = Some (DistanceFunc ''location'' (Location 0x405C8CCCCCCCCCCD 0x40364A3D70A3D70A)),
          Order = Desc\<rparr>"
        "''location''" "Location 0x405C8CCCCCCCCCCD 0x40364A3D70A3D70A" "''note''"]
  by (simp add: fullQuoteIdentifier_def QuoteIdentifier_def Sprintf_f_114_2 Sprintf_f_22_29)

subsection \<open>C10: the error result of the access-control builder\<close>

text \<open>
  C10. \<^verbatim>\<open>newAccessControlSqlizer\<close> returns a nil error for every session, user and
  level, and \<open>ToSql\<close> of every access-control sqlizer, the one it returns among them,
  returns with a nil error: no input makes the builder report a failure through its
  error result.
\<close>

theorem access_control_error_is_nil:
  "snd (newAccessControlSqlizer f u aclLevel) = None
   \<and> (\<exists>sql args. accessPredicateSqlizer_ToSql (fst (newAccessControlSqlizer f u aclLevel))
                    = Returns (sql, args, None))
   \<and> (\<exists>sql args. accessPredicateSqlizer_ToSql p = Returns (sql, args, None))"
  by (simp add: newAccessControlSqlizer_def accessPredicateSqlizer_ToSql_eq)

end
